theory Spec2Isabelle
  imports Complex_Main "HOL-Library.AList" "HOL-Library.Multiset"
begin

section \<open>Data model (types.ts)\<close>

text \<open>
  Dates are JavaScript \<open>Date\<close> objects; only their epoch value (\<open>getTime()\<close>, in
  milliseconds) is observed, so a date is an \<open>int\<close>. A \<open>File\<close> (the original image
  blob) is identified by a string. Optional fields (\<open>imageUrl?\<close>, \<open>tags?\<close>,
  \<open>hasOriginalImage?\<close>) are options, \<open>None\<close> standing for \<open>undefined\<close>.
\<close>

type_synonym Date = int
type_synonym File = string

record ProgressStep =
  step_id :: string
  step_description :: string
  timestamp :: Date
  completed :: bool

record Event =
  event_id :: string
  title :: string
  description :: string
  createdAt :: Date
  steps :: "ProgressStep list"
  imageUrl :: "string option"
  tags :: "string list option"
  hasOriginalImage :: "bool option"

record StepTemplate =
  template_id :: string
  template_description :: string

record StepSetTemplateStep =
  set_step_id :: string
  set_step_description :: string

record StepSetTemplate =
  set_id :: string
  set_name :: string
  set_steps :: "StepSetTemplateStep list"

section \<open>Pending actions and the fold \<open>applyPendingActions\<close> (App.tsx)\<close>

text \<open>
  The \<open>originalImage\<close> of an \<open>UPDATE_EVENT\<close> is \<open>File | 'remove' | undefined\<close>.
\<close>

datatype ImageArg = NoImage | ImageFile File | RemoveImage

datatype PendingAction =
    ADD_EVENT Event "File option"
  | UPDATE_EVENT Event ImageArg
  | DELETE_EVENT string
  | UPDATE_EVENT_STEPS string "ProgressStep list"
  | ADD_TAG string
  | DELETE_TAGS "string list"
  | RENAME_TAG string string
  | REORDER_TAGS "string list"

text \<open>
  One iteration of the \<open>actions.forEach\<close> loop: the \<open>switch\<close> on the action type,
  acting on the pair \<open>(processedEvents, processedTags)\<close>.
\<close>

fun applyAction :: "PendingAction \<Rightarrow> Event list \<times> string list \<Rightarrow> Event list \<times> string list" where
  "applyAction (ADD_EVENT ev img) (processedEvents, processedTags) =
     (if \<not> list_ex (\<lambda>e. event_id e = event_id ev) processedEvents
      then (ev # processedEvents, processedTags)
      else (processedEvents, processedTags))"
| "applyAction (UPDATE_EVENT ev img) (processedEvents, processedTags) =
     (map (\<lambda>e. if event_id e = event_id ev then ev else e) processedEvents, processedTags)"
| "applyAction (DELETE_EVENT eventId) (processedEvents, processedTags) =
     (filter (\<lambda>e. event_id e \<noteq> eventId) processedEvents, processedTags)"
| "applyAction (UPDATE_EVENT_STEPS eventId newSteps) (processedEvents, processedTags) =
     (map (\<lambda>e. if event_id e = eventId then e\<lparr>steps := newSteps\<rparr> else e) processedEvents,
      processedTags)"
| "applyAction (ADD_TAG t) (processedEvents, processedTags) =
     (if t \<notin> set processedTags
      then (processedEvents, processedTags @ [t])
      else (processedEvents, processedTags))"
| "applyAction (DELETE_TAGS deleted) (processedEvents, processedTags) =
     (map (\<lambda>e. e\<lparr>tags := map_option (filter (\<lambda>t. t \<notin> set deleted)) (tags e)\<rparr>)
        processedEvents,
      filter (\<lambda>t. t \<notin> set deleted) processedTags)"
| "applyAction (RENAME_TAG oldTag newTag) (processedEvents, processedTags) =
     (map (\<lambda>e. e\<lparr>tags := map_option (map (\<lambda>t. if t = oldTag then newTag else t)) (tags e)\<rparr>)
        processedEvents,
      map (\<lambda>t. if t = oldTag then newTag else t) processedTags)"
| "applyAction (REORDER_TAGS reordered) (processedEvents, processedTags) =
     (processedEvents, reordered)"

definition applyPendingActions ::
  "Event list \<Rightarrow> string list \<Rightarrow> PendingAction list \<Rightarrow> Event list \<times> string list" where
  "applyPendingActions baseEvents baseTags actions =
     fold applyAction actions (baseEvents, baseTags)"

text \<open>The tag names an event carries (none when \<open>tags\<close> is undefined).\<close>

definition tagsOf :: "Event \<Rightarrow> string set" where
  "tagsOf e = (case tags e of None \<Rightarrow> {} | Some ts \<Rightarrow> set ts)"

section \<open>Names and built-in data\<close>

text \<open>
  The three reserved database names are imported from the database manager component,
  which is not part of the sources at hand, so they are parameters of the model. The
  built-in tutorial event, its tag and the demo dataset are constants of App.tsx whose
  texts lie outside ASCII and whose dates are read from the clock when the module loads;
  they are parameters as well.
\<close>

record Config =
  DEFAULT_DB_NAME :: string
  DEMO_DB_NAME :: string
  TEMP_STORAGE_DB_NAME :: string
  tutorialEvent :: Event
  tutorialTag :: string
  demoEvents :: "Event list"
  demoStepTemplates :: "StepTemplate list"
  demoStepSetTemplates :: "StepSetTemplate list"

definition DB_PREFIX :: string where
  "DB_PREFIX = ''essenmelia-db''"

definition SETTINGS_DB_NAME :: string where
  "SETTINGS_DB_NAME = ''essenmelia-db-settings''"

text \<open>
  \<open>[...new Set(xs)]\<close>: the elements of \<open>xs\<close> in the order of their first occurrence.
\<close>

definition uniqueInOrder :: "'a list \<Rightarrow> 'a list" where
  "uniqueInOrder xs = rev (remdups (rev xs))"

definition demoTags :: "Config \<Rightarrow> string list" where
  "demoTags K =
     uniqueInOrder (concat (map (\<lambda>e. case tags e of None \<Rightarrow> [] | Some ts \<Rightarrow> ts) (demoEvents K)))"

definition reviveEventDates :: "Event \<Rightarrow> Event" where
  "reviveEventDates event =
     event\<lparr>createdAt := createdAt event,
           steps := map (\<lambda>step. step\<lparr>timestamp := timestamp step\<rparr>) (steps event)\<rparr>"

section \<open>The store adapter over IndexedDB\<close>

text \<open>
  A database holds six object stores. \<open>events\<close>, \<open>stepTemplates\<close> and
  \<open>stepSetTemplates\<close> are keyed by the \<open>id\<close> of the item (\<open>keyPath: 'id'\<close>): they
  never hold two items with one key, and \<open>put\<close> replaces the item that has the key.
  They are lists of items, kept in the order in which the keys were first written. The
  engine itself hands the items out in the order of their keys; that order is not
  modelled, and what is proved about the items persisted in such a store is stated for
  the items as a collection (a multiset), not for their order. The \<open>tags\<close> store holds the whole tag list under the one key
  \<open>'allTags'\<close>, the \<open>metadata\<close> store the flag \<open>'isSeeded'\<close>, and \<open>originalImages\<close>
  maps event ids to files.
\<close>

record Database =
  st_events :: "Event list"
  st_tags :: "string list option"
  st_stepTemplates :: "StepTemplate list"
  st_stepSetTemplates :: "StepSetTemplate list"
  st_isSeeded :: bool
  st_originalImages :: "(string \<times> File) list"

definition emptyDatabase :: Database where
  "emptyDatabase =
     \<lparr>st_events = [], st_tags = None, st_stepTemplates = [], st_stepSetTemplates = [],
      st_isSeeded = False, st_originalImages = []\<rparr>"

text \<open>
  The engine's state: the databases that exist, by name, and the connection cache
  \<open>dbConnections\<close> of the adapter.
\<close>

record Storage =
  databases :: "(string \<times> Database) list"
  dbConnections :: "string list"

definition dbOf :: "Storage \<Rightarrow> string \<Rightarrow> Database" where
  "dbOf S dbName = (case map_of (databases S) dbName of None \<Rightarrow> emptyDatabase | Some d \<Rightarrow> d)"

datatype Store =
  STORE_events | STORE_tags | STORE_stepTemplates | STORE_stepSetTemplates
  | STORE_metadata | STORE_originalImages

text \<open>
  Every operation of the engine may be rejected. Which ones are is not decided by the
  program, so it is a parameter \<open>fails\<close> of every function that touches storage: a
  predicate on the operations \<open>IO\<close>, fixed for the duration of one call of a handler.
  A rejected operation changes nothing (a transaction is atomic) and surfaces as the
  engine's error.
\<close>

datatype IO = IO_open string | IO_read string Store | IO_write string Store

datatype Error = StorageError IO | InvalidFileFormat | NotJson | NoDataMember

type_synonym 'a Promise = "Storage \<Rightarrow> (Error + 'a) \<times> Storage"

definition initDB :: "(IO \<Rightarrow> bool) \<Rightarrow> string \<Rightarrow> unit Promise" where
  "initDB fails dbName S =
     (if dbName \<in> set (dbConnections S) then (Inr (), S)
      else if fails (IO_open dbName) then (Inl (StorageError (IO_open dbName)), S)
      else (Inr (), S\<lparr>databases := AList.update dbName (dbOf S dbName) (databases S),
                       dbConnections := dbName # dbConnections S\<rparr>))"

text \<open>
  \<open>getStore\<close> followed by one request on the store: open the database, then run the
  request \<open>f\<close> on it unless the engine rejects it.
\<close>

definition getStore ::
  "(IO \<Rightarrow> bool) \<Rightarrow> IO \<Rightarrow> string \<Rightarrow> (Database \<Rightarrow> 'a \<times> Database) \<Rightarrow> 'a Promise" where
  "getStore fails request dbName f S =
     (case initDB fails dbName S of
        (Inl e, S') \<Rightarrow> (Inl e, S')
      | (Inr _, S') \<Rightarrow>
          if fails request then (Inl (StorageError request), S')
          else (case f (dbOf S' dbName) of
                  (r, d') \<Rightarrow> (Inr r, S'\<lparr>databases := AList.update dbName d' (databases S')\<rparr>)))"

text \<open>
  The database can be opened: its connection is cached, or the engine does not reject
  the opening.
\<close>

definition reachable :: "(IO \<Rightarrow> bool) \<Rightarrow> Storage \<Rightarrow> string \<Rightarrow> bool" where
  "reachable fails S dbName = (dbName \<in> set (dbConnections S) \<or> \<not> fails (IO_open dbName))"

text \<open>\<open>store.put(item)\<close> on a store keyed by the item's id.\<close>

fun put :: "('a \<Rightarrow> string) \<Rightarrow> 'a \<Rightarrow> 'a list \<Rightarrow> 'a list" where
  "put key item [] = [item]"
| "put key item (x # xs) = (if key x = key item then item # xs else x # put key item xs)"

text \<open>
  The generic adapter functions take the store as its name, its key and the update
  function of its field in \<open>Database\<close>.
\<close>

definition saveDataInStore ::
  "(IO \<Rightarrow> bool) \<Rightarrow> string \<Rightarrow> Store \<Rightarrow> ('a \<Rightarrow> string) \<Rightarrow>
   (('a list \<Rightarrow> 'a list) \<Rightarrow> Database \<Rightarrow> Database) \<Rightarrow> 'a list \<Rightarrow> unit Promise" where
  "saveDataInStore fails dbName storeName key field_update data =
     getStore fails (IO_write dbName storeName) dbName
       (\<lambda>d. ((), field_update (\<lambda>_. fold (put key) data []) d))"

definition insertDataInStore ::
  "(IO \<Rightarrow> bool) \<Rightarrow> string \<Rightarrow> Store \<Rightarrow> ('a \<Rightarrow> string) \<Rightarrow>
   (('a list \<Rightarrow> 'a list) \<Rightarrow> Database \<Rightarrow> Database) \<Rightarrow> 'a list \<Rightarrow> unit Promise" where
  "insertDataInStore fails dbName storeName key field_update data S =
     (if data = [] then (Inr (), S)
      else getStore fails (IO_write dbName storeName) dbName
             (\<lambda>d. ((), field_update (\<lambda>old. fold (put key) data old) d)) S)"

definition saveTagsInStore :: "(IO \<Rightarrow> bool) \<Rightarrow> string \<Rightarrow> string list \<Rightarrow> unit Promise" where
  "saveTagsInStore fails dbName tgs =
     getStore fails (IO_write dbName STORE_tags) dbName (\<lambda>d. ((), d\<lparr>st_tags := Some tgs\<rparr>))"

definition getAllDataFromStore ::
  "(IO \<Rightarrow> bool) \<Rightarrow> string \<Rightarrow> Store \<Rightarrow> (Database \<Rightarrow> 'a list) \<Rightarrow> 'a list Promise" where
  "getAllDataFromStore fails dbName storeName field =
     getStore fails (IO_read dbName storeName) dbName (\<lambda>d. (field d, d))"

definition getTagsFromStore :: "(IO \<Rightarrow> bool) \<Rightarrow> string \<Rightarrow> string list Promise" where
  "getTagsFromStore fails dbName =
     getStore fails (IO_read dbName STORE_tags) dbName
       (\<lambda>d. (case st_tags d of None \<Rightarrow> [] | Some ts \<Rightarrow> ts, d))"

definition saveDataInStoreByKey :: "(IO \<Rightarrow> bool) \<Rightarrow> string \<Rightarrow> File \<Rightarrow> string \<Rightarrow> unit Promise" where
  "saveDataInStoreByKey fails dbName file key =
     getStore fails (IO_write dbName STORE_originalImages) dbName
       (\<lambda>d. ((), d\<lparr>st_originalImages := AList.update key file (st_originalImages d)\<rparr>))"

definition deleteDataFromStoreByKey :: "(IO \<Rightarrow> bool) \<Rightarrow> string \<Rightarrow> string \<Rightarrow> unit Promise" where
  "deleteDataFromStoreByKey fails dbName key =
     getStore fails (IO_write dbName STORE_originalImages) dbName
       (\<lambda>d. ((), d\<lparr>st_originalImages := AList.delete key (st_originalImages d)\<rparr>))"

text \<open>\<open>getMetadata(dbName, 'isSeeded')\<close> and \<open>saveMetadata(dbName, 'isSeeded', v)\<close>.\<close>

definition getMetadata :: "(IO \<Rightarrow> bool) \<Rightarrow> string \<Rightarrow> bool Promise" where
  "getMetadata fails dbName =
     getStore fails (IO_read dbName STORE_metadata) dbName (\<lambda>d. (st_isSeeded d, d))"

definition saveMetadata :: "(IO \<Rightarrow> bool) \<Rightarrow> string \<Rightarrow> bool \<Rightarrow> unit Promise" where
  "saveMetadata fails dbName v =
     getStore fails (IO_write dbName STORE_metadata) dbName (\<lambda>d. ((), d\<lparr>st_isSeeded := v\<rparr>))"

text \<open>
  \<open>Promise.all\<close> over writes: every operation has been started and runs, whether or not
  another one is rejected; the whole is rejected when one of them is.
\<close>

fun promiseAll :: "unit Promise list \<Rightarrow> unit Promise" where
  "promiseAll [] S = (Inr (), S)"
| "promiseAll (p # ps) S =
     (case p S of
        (r, S') \<Rightarrow>
          (case promiseAll ps S' of
             (rs, S'') \<Rightarrow> (case r of Inl e \<Rightarrow> Inl e | Inr _ \<Rightarrow> rs, S'')))"

definition saveDataToDb ::
  "Config \<Rightarrow> (IO \<Rightarrow> bool) \<Rightarrow> string \<Rightarrow> Event list \<Rightarrow> string list \<Rightarrow> StepTemplate list \<Rightarrow>
   StepSetTemplate list \<Rightarrow> unit Promise" where
  "saveDataToDb K fails dbName eventsToSave tagsToSave templatesToSave setsToSave S =
     (if dbName = DEMO_DB_NAME K \<or> dbName = TEMP_STORAGE_DB_NAME K then (Inr (), S)
      else promiseAll
        [saveDataInStore fails dbName STORE_events event_id st_events_update eventsToSave,
         saveTagsInStore fails dbName tagsToSave,
         saveDataInStore fails dbName STORE_stepTemplates template_id st_stepTemplates_update
           templatesToSave,
         saveDataInStore fails dbName STORE_stepSetTemplates set_id st_stepSetTemplates_update
           setsToSave] S)"

section \<open>The snapshot loader \<open>loadData\<close>\<close>

record Snapshot =
  snap_events :: "Event list"
  snap_tags :: "string list"
  snap_stepTemplates :: "StepTemplate list"
  snap_stepSetTemplates :: "StepSetTemplate list"

text \<open>Seeding of a database that has no \<open>isSeeded\<close> mark: write the four stores, then the mark.\<close>

definition seedDatabase ::
  "(IO \<Rightarrow> bool) \<Rightarrow> string \<Rightarrow> Event list \<Rightarrow> string list \<Rightarrow> Snapshot Promise" where
  "seedDatabase fails dbToLoad startupEvents startupTags S =
     (case promiseAll
             [saveDataInStore fails dbToLoad STORE_events event_id st_events_update startupEvents,
              saveTagsInStore fails dbToLoad startupTags,
              saveDataInStore fails dbToLoad STORE_stepTemplates template_id
                st_stepTemplates_update [],
              saveDataInStore fails dbToLoad STORE_stepSetTemplates set_id
                st_stepSetTemplates_update []] S of
        (Inl e, S1) \<Rightarrow> (Inl e, S1)
      | (Inr _, S1) \<Rightarrow>
          (case saveMetadata fails dbToLoad True S1 of
             (Inl e, S2) \<Rightarrow> (Inl e, S2)
           | (Inr _, S2) \<Rightarrow>
               (Inr \<lparr>snap_events = startupEvents, snap_tags = startupTags,
                     snap_stepTemplates = [], snap_stepSetTemplates = []\<rparr>, S2)))"

text \<open>The four reads of an already seeded database (\<open>Promise.all\<close> of the reads).\<close>

definition readDatabase :: "(IO \<Rightarrow> bool) \<Rightarrow> string \<Rightarrow> Snapshot Promise" where
  "readDatabase fails dbToLoad S =
     (case getAllDataFromStore fails dbToLoad STORE_events st_events S of
        (r1, S1) \<Rightarrow>
     (case getTagsFromStore fails dbToLoad S1 of
        (r2, S2) \<Rightarrow>
     (case getAllDataFromStore fails dbToLoad STORE_stepTemplates st_stepTemplates S2 of
        (r3, S3) \<Rightarrow>
     (case getAllDataFromStore fails dbToLoad STORE_stepSetTemplates st_stepSetTemplates S3 of
        (r4, S4) \<Rightarrow>
       (case r1 of Inl e \<Rightarrow> Inl e | Inr dbEvents \<Rightarrow>
        (case r2 of Inl e \<Rightarrow> Inl e | Inr dbTags \<Rightarrow>
        (case r3 of Inl e \<Rightarrow> Inl e | Inr dbStepTemplates \<Rightarrow>
        (case r4 of Inl e \<Rightarrow> Inl e | Inr dbStepSetTemplates \<Rightarrow>
           Inr \<lparr>snap_events = dbEvents, snap_tags = dbTags,
                 snap_stepTemplates = dbStepTemplates,
                 snap_stepSetTemplates = dbStepSetTemplates\<rparr>))), S4)))))"

definition loadData :: "Config \<Rightarrow> (IO \<Rightarrow> bool) \<Rightarrow> string \<Rightarrow> Snapshot Promise" where
  "loadData K fails dbToLoad S =
     (if dbToLoad = DEMO_DB_NAME K
      then (Inr \<lparr>snap_events = demoEvents K, snap_tags = demoTags K,
                 snap_stepTemplates = demoStepTemplates K,
                 snap_stepSetTemplates = demoStepSetTemplates K\<rparr>, S)
      else
        (case initDB fails dbToLoad S of
           (Inl e, S1) \<Rightarrow> (Inl e, S1)
         | (Inr _, S1) \<Rightarrow>
             (case getMetadata fails dbToLoad S1 of
                (Inl e, S2) \<Rightarrow> (Inl e, S2)
              | (Inr isSeeded, S2) \<Rightarrow>
                  if \<not> isSeeded \<and> dbToLoad = DEFAULT_DB_NAME K
                  then seedDatabase fails dbToLoad [tutorialEvent K] [tutorialTag K] S2
                  else if \<not> isSeeded
                  then seedDatabase fails dbToLoad [] [] S2
                  else readDatabase fails dbToLoad S2)))"

text \<open>
  \<open>discoverDatabases\<close>: the engine's list of databases (\<open>None\<close> when
  \<open>indexedDB.databases\<close> is not supported or is rejected; a database may have no name),
  filtered by the naming convention.
\<close>

definition startsWith :: "string \<Rightarrow> string \<Rightarrow> bool" where
  "startsWith s p = (take (length p) s = p)"

definition discoverDatabases :: "string option list option \<Rightarrow> string list" where
  "discoverDatabases listing =
     (case listing of
        None \<Rightarrow> []
      | Some dbs \<Rightarrow>
          List.map_filter
            (\<lambda>name. case name of
                       None \<Rightarrow> None
                     | Some n \<Rightarrow> if startsWith n DB_PREFIX \<and> n \<noteq> SETTINGS_DB_NAME
                                 then Some n else None) dbs)"

section \<open>Application state\<close>

text \<open>
  The status banner and the notification dialog carry texts outside ASCII; each text of
  the source is a constructor here. The \<open>id\<close> of a status (a clock reading used to
  dismiss it) is left out.
\<close>

datatype StatusType = Status_loading | Status_success | Status_error | Status_info

datatype StatusMessage =
    Msg_syncing nat | Msg_syncDone | Msg_syncFailed
  | Msg_connectingDatabase | Msg_connectingTo string
  | Msg_merging | Msg_merged | Msg_switched
  | Msg_tempMode | Msg_noDatabase | Msg_loadFailed

datatype Notification =
    Note_switchFailed string
  | Note_exportRestricted | Note_exported | Note_exportFailed Error
  | Note_importedTemp | Note_importedDb | Note_importFailed Error

text \<open>
  The React state of \<open>App\<close> that the persistence layer reads and writes. State that
  only the view uses (selection, filters, search text, open modals other than the
  database manager) is left out.
\<close>

record App =
  activeDbName :: string
  userDbNames :: "string list"
  events :: "Event list"
  customTags :: "string list"
  stepTemplates :: "StepTemplate list"
  stepSetTemplates :: "StepSetTemplate list"
  isLoading :: bool
  pendingActions :: "PendingAction list"
  dbError :: "Error option"
  dbStatus :: "(StatusMessage \<times> StatusType) option"
  notification :: "Notification option"
  eventToEdit :: "Event option"
  isDbManagerOpen :: bool
  confirmDiscardChanges :: "string option"

record LocalStorage =
  ls_activeDbName :: "string option"
  ls_hasLaunchedBefore :: "string option"

record World =
  app :: App
  storage :: Storage
  localStorage :: LocalStorage

definition isTempStorageMode :: "Config \<Rightarrow> App \<Rightarrow> bool" where
  "isTempStorageMode K s = (activeDbName s = TEMP_STORAGE_DB_NAME K)"

text \<open>
  The test \<open>isLoading || isTempStorageMode || dbError\<close> of every mutation handler:
  the mutation is queued instead of being left to the autosave.
\<close>

definition deferred :: "Config \<Rightarrow> App \<Rightarrow> bool" where
  "deferred K s = (isLoading s \<or> isTempStorageMode K s \<or> dbError s \<noteq> None)"

section \<open>Mutation handlers\<close>

text \<open>
  A handler reads the state \<open>s\<close> of the render that created it (its closure) and issues
  state updates; the functional updates \<open>setX(prev => ...)\<close> act on the state \<open>a\<close> as the
  earlier updates of the same handler left it.
\<close>

definition handleAddTag :: "Config \<Rightarrow> App \<Rightarrow> string \<Rightarrow> App \<Rightarrow> App" where
  "handleAddTag K s tag a =
     (if tag \<notin> set (customTags s)
      then (if deferred K s
            then a\<lparr>customTags := customTags a @ [tag],
                   pendingActions := pendingActions a @ [ADD_TAG tag]\<rparr>
            else a\<lparr>customTags := customTags a @ [tag]\<rparr>)
      else a)"

text \<open>The filter predicate \<open>a.type === 'UPDATE_EVENT' && a.payload.event.id === id\<close>.\<close>

fun isUpdateEventFor :: "string \<Rightarrow> PendingAction \<Rightarrow> bool" where
  "isUpdateEventFor eventId (UPDATE_EVENT ev img) = (event_id ev = eventId)"
| "isUpdateEventFor eventId _ = False"

definition finalEventOf :: "App \<Rightarrow> Event \<Rightarrow> ImageArg \<Rightarrow> Event" where
  "finalEventOf s updatedEvent originalImage =
     (let isImageChanged =
            (originalImage \<noteq> NoImage \<or>
             imageUrl updatedEvent \<noteq> (case eventToEdit s of None \<Rightarrow> None | Some e \<Rightarrow> imageUrl e))
      in updatedEvent\<lparr>hasOriginalImage :=
           Some (if isImageChanged
                 then (case originalImage of ImageFile f \<Rightarrow> True | _ \<Rightarrow> False)
                 else (case eventToEdit s of
                         None \<Rightarrow> False
                       | Some e \<Rightarrow> (case hasOriginalImage e of None \<Rightarrow> False | Some b \<Rightarrow> b)))\<rparr>)"

text \<open>
  \<open>handleUpdateEvent\<close>. Outside the deferred mode the original image is written or
  deleted at once; the promise is not awaited, so a rejection changes nothing here.
\<close>

definition handleUpdateEvent ::
  "Config \<Rightarrow> (IO \<Rightarrow> bool) \<Rightarrow> Event \<Rightarrow> ImageArg \<Rightarrow> World \<Rightarrow> World" where
  "handleUpdateEvent K fails updatedEvent originalImage w =
     (let s = app w;
          finalEvent = finalEventOf s updatedEvent originalImage;
          updatedTags = (case tags finalEvent of None \<Rightarrow> [] | Some ts \<Rightarrow> ts);
          newTagsToCreate = filter (\<lambda>tag. tag \<notin> set (customTags s)) updatedTags;
          a1 = fold (handleAddTag K s) newTagsToCreate s;
          replace = map (\<lambda>e. if event_id e = event_id finalEvent then finalEvent else e);
          clearEdit = (\<lambda>a. case eventToEdit s of
                              None \<Rightarrow> a
                            | Some e \<Rightarrow> if event_id e = event_id finalEvent
                                        then a\<lparr>eventToEdit := None\<rparr> else a)
      in if deferred K s
         then w\<lparr>app := clearEdit (a1
                 \<lparr>events := replace (events a1),
                  pendingActions :=
                    filter (\<lambda>a. \<not> isUpdateEventFor (event_id finalEvent) a) (pendingActions a1)
                    @ [UPDATE_EVENT finalEvent originalImage]\<rparr>)\<rparr>
         else w\<lparr>app := clearEdit (a1\<lparr>events := replace (events s)\<rparr>),
                storage :=
                  (case originalImage of
                     ImageFile f \<Rightarrow>
                       snd (saveDataInStoreByKey fails (activeDbName s) f (event_id finalEvent)
                              (storage w))
                   | RemoveImage \<Rightarrow>
                       snd (deleteDataFromStoreByKey fails (activeDbName s) (event_id finalEvent)
                              (storage w))
                   | NoImage \<Rightarrow> storage w)\<rparr>)"

definition handleDeleteTags :: "Config \<Rightarrow> string list \<Rightarrow> App \<Rightarrow> App" where
  "handleDeleteTags K tagsToDelete s =
     (let newTags = filter (\<lambda>t. t \<notin> set tagsToDelete) (customTags s);
          newEvents =
            map (\<lambda>e. e\<lparr>tags := map_option (filter (\<lambda>t. t \<notin> set tagsToDelete)) (tags e)\<rparr>)
              (events s)
      in if deferred K s
         then s\<lparr>events := newEvents, customTags := newTags,
                pendingActions := pendingActions s @ [DELETE_TAGS tagsToDelete]\<rparr>
         else s\<lparr>events := newEvents, customTags := newTags\<rparr>)"

section \<open>The sync engine\<close>

text \<open>The side write for the image payload of one queued action.\<close>

fun imageWrite :: "(IO \<Rightarrow> bool) \<Rightarrow> string \<Rightarrow> PendingAction \<Rightarrow> unit Promise" where
  "imageWrite fails dbName (ADD_EVENT ev (Some f)) =
     saveDataInStoreByKey fails dbName f (event_id ev)"
| "imageWrite fails dbName (UPDATE_EVENT ev RemoveImage) =
     deleteDataFromStoreByKey fails dbName (event_id ev)"
| "imageWrite fails dbName (UPDATE_EVENT ev (ImageFile f)) =
     saveDataInStoreByKey fails dbName f (event_id ev)"
| "imageWrite fails dbName (DELETE_EVENT eventId) =
     deleteDataFromStoreByKey fails dbName eventId"
| "imageWrite fails dbName _ = (\<lambda>S. (Inr (), S))"

text \<open>The body of the \<open>try\<close> of \<open>performSync\<close>: the combined write of one flush.\<close>

definition syncWrites ::
  "Config \<Rightarrow> (IO \<Rightarrow> bool) \<Rightarrow> App \<Rightarrow> Event list \<Rightarrow> string list \<Rightarrow> unit Promise" where
  "syncWrites K fails s processedEvents processedTags S =
     (if activeDbName s \<noteq> DEMO_DB_NAME K
      then promiseAll
             ([saveDataInStore fails (activeDbName s) STORE_events event_id st_events_update
                 processedEvents,
               saveTagsInStore fails (activeDbName s) processedTags]
              @ map (imageWrite fails (activeDbName s)) (pendingActions s)) S
      else (Inr (), S))"

definition performSync :: "Config \<Rightarrow> (IO \<Rightarrow> bool) \<Rightarrow> World \<Rightarrow> World" where
  "performSync K fails w =
     (let s = app w in
      case applyPendingActions (events s) (customTags s) (pendingActions s) of
        (processedEvents, processedTags) \<Rightarrow>
          (case syncWrites K fails s processedEvents processedTags (storage w) of
             (Inr _, S') \<Rightarrow>
               w\<lparr>app := s\<lparr>events := processedEvents, customTags := processedTags,
                           pendingActions := [], dbError := None,
                           dbStatus := Some (Msg_syncDone, Status_success)\<rparr>,
                 storage := S'\<rparr>
           | (Inl e, S') \<Rightarrow>
               w\<lparr>app := s\<lparr>dbError := Some e,
                           dbStatus := Some (Msg_syncFailed, Status_error)\<rparr>,
                 storage := S'\<rparr>))"

text \<open>The outcome of the combined write of the flush that \<open>performSync\<close> attempts.\<close>

definition flushResult :: "Config \<Rightarrow> (IO \<Rightarrow> bool) \<Rightarrow> World \<Rightarrow> Error + unit" where
  "flushResult K fails w =
     (case applyPendingActions (events (app w)) (customTags (app w)) (pendingActions (app w)) of
        (processedEvents, processedTags) \<Rightarrow>
          fst (syncWrites K fails (app w) processedEvents processedTags (storage w)))"

text \<open>
  The effect that schedules \<open>performSync\<close> (after the 500 ms debounce, which is not
  modelled): nothing is flushed while loading, in temporary mode, after an error, or
  with an empty queue.
\<close>

definition syncEffect :: "Config \<Rightarrow> (IO \<Rightarrow> bool) \<Rightarrow> World \<Rightarrow> World" where
  "syncEffect K fails w =
     (let s = app w in
      if isLoading s \<or> isTempStorageMode K s \<or> dbError s \<noteq> None \<or> pendingActions s = []
      then (if \<not> isLoading s \<and> \<not> isTempStorageMode K s \<and> dbError s = None \<and>
               map_option fst (dbStatus s) = Some Msg_connectingDatabase
            then w\<lparr>app := s\<lparr>dbStatus := None\<rparr>\<rparr>
            else w)
      else performSync K fails
             (w\<lparr>app := s\<lparr>dbStatus :=
                Some (Msg_syncing (length (pendingActions s)), Status_loading)\<rparr>\<rparr>))"

section \<open>Switching the active database\<close>

text \<open>The state updates at the end of a successful switch to a regular database.\<close>

definition adoptSnapshot ::
  "string \<Rightarrow> Event list \<Rightarrow> string list \<Rightarrow> StepTemplate list \<Rightarrow> StepSetTemplate list \<Rightarrow>
   StatusMessage \<Rightarrow> Storage \<Rightarrow> World \<Rightarrow> World" where
  "adoptSnapshot newDbName evs tgs templates sets msg S w =
     w\<lparr>app := (app w)\<lparr>events := evs, customTags := tgs, stepTemplates := templates,
                       stepSetTemplates := sets, activeDbName := newDbName,
                       dbError := None, pendingActions := [],
                       dbStatus := Some (msg, Status_success), isDbManagerOpen := False\<rparr>,
       storage := S,
       localStorage := (localStorage w)\<lparr>ls_activeDbName := Some newDbName\<rparr>\<rparr>"

text \<open>The \<open>catch\<close> of \<open>handleSwitchDb\<close>.\<close>

definition switchFailed :: "string \<Rightarrow> Error \<Rightarrow> Storage \<Rightarrow> World \<Rightarrow> World" where
  "switchFailed newDbName e S w =
     w\<lparr>app := (app w)\<lparr>dbError := Some e, notification := Some (Note_switchFailed newDbName),
                       dbStatus := None, isDbManagerOpen := True\<rparr>,
       storage := S\<rparr>"

definition handleSwitchDb :: "Config \<Rightarrow> (IO \<Rightarrow> bool) \<Rightarrow> string \<Rightarrow> World \<Rightarrow> World" where
  "handleSwitchDb K fails newDbName w =
     (let s = app w;
          cameFromPassiveTemp = (dbError s \<noteq> None);
          hasUnsyncedChanges = (pendingActions s \<noteq> [])
      in
      if newDbName = activeDbName s then w\<lparr>app := s\<lparr>isDbManagerOpen := False\<rparr>\<rparr>
      else if (newDbName = DEMO_DB_NAME K \<or> newDbName = TEMP_STORAGE_DB_NAME K) \<and>
              cameFromPassiveTemp \<and> hasUnsyncedChanges
      then w\<lparr>app := s\<lparr>confirmDiscardChanges := Some newDbName, isDbManagerOpen := False\<rparr>\<rparr>
      else if newDbName = TEMP_STORAGE_DB_NAME K
      then w\<lparr>app := s\<lparr>activeDbName := TEMP_STORAGE_DB_NAME K, events := [], customTags := [],
                        stepTemplates := [], stepSetTemplates := [], pendingActions := [],
                        dbError := None, dbStatus := Some (Msg_tempMode, Status_info),
                        isDbManagerOpen := False\<rparr>,
             localStorage := (localStorage w)\<lparr>ls_activeDbName := None\<rparr>\<rparr>
      else if cameFromPassiveTemp \<and> hasUnsyncedChanges
      then
        (case loadData K fails newDbName (storage w) of
           (Inl e, S1) \<Rightarrow> switchFailed newDbName e S1 w
         | (Inr targetDbData, S1) \<Rightarrow>
             (case applyPendingActions (map reviveEventDates (snap_events targetDbData))
                     (snap_tags targetDbData) (pendingActions s) of
                (processedEvents, processedTags) \<Rightarrow>
                  (case saveDataToDb K fails newDbName processedEvents processedTags
                          (snap_stepTemplates targetDbData)
                          (snap_stepSetTemplates targetDbData) S1 of
                     (Inl e, S2) \<Rightarrow> switchFailed newDbName e S2 w
                   | (Inr _, S2) \<Rightarrow>
                       adoptSnapshot newDbName processedEvents processedTags
                         (snap_stepTemplates targetDbData)
                         (snap_stepSetTemplates targetDbData) Msg_merged S2 w)))
      else
        (case loadData K fails newDbName (storage w) of
           (Inl e, S1) \<Rightarrow> switchFailed newDbName e S1 w
         | (Inr loadedData, S1) \<Rightarrow>
             adoptSnapshot newDbName (map reviveEventDates (snap_events loadedData))
               (snap_tags loadedData) (snap_stepTemplates loadedData)
               (snap_stepSetTemplates loadedData) Msg_switched S1 w))"

text \<open>
  The baseline snapshot of a database: what \<open>loadData\<close> hands over when nothing is
  rejected. A database without the \<open>isSeeded\<close> mark is seeded first, the default
  database with the tutorial event and its tag, any other one with empty collections.
\<close>

definition baselineOf :: "Config \<Rightarrow> Storage \<Rightarrow> string \<Rightarrow> Snapshot" where
  "baselineOf K S dbName =
     (let d = dbOf S dbName in
      if st_isSeeded d
      then \<lparr>snap_events = st_events d,
            snap_tags = (case st_tags d of None \<Rightarrow> [] | Some ts \<Rightarrow> ts),
            snap_stepTemplates = st_stepTemplates d,
            snap_stepSetTemplates = st_stepSetTemplates d\<rparr>
      else if dbName = DEFAULT_DB_NAME K
      then \<lparr>snap_events = [tutorialEvent K], snap_tags = [tutorialTag K],
            snap_stepTemplates = [], snap_stepSetTemplates = []\<rparr>
      else \<lparr>snap_events = [], snap_tags = [], snap_stepTemplates = [],
            snap_stepSetTemplates = []\<rparr>)"

text \<open>The template stores of a database are keyed: they hold one item per id.\<close>

definition templatesKeyed :: "Database \<Rightarrow> bool" where
  "templatesKeyed d =
     (distinct (map template_id (st_stepTemplates d)) \<and>
      distinct (map set_id (st_stepSetTemplates d)))"

section \<open>The autosave\<close>

text \<open>
  \<open>saveData\<close>, the part that saves the application data: the four collections in memory
  are written over the stores of the active database. A rejection is only logged. The
  \<open>isSeeded\<close> mark is not written, and \<open>dbError\<close> is not consulted. The part that saves
  the global settings to their own database is left out.
\<close>

definition saveData :: "Config \<Rightarrow> (IO \<Rightarrow> bool) \<Rightarrow> World \<Rightarrow> World" where
  "saveData K fails w =
     (let s = app w in
      if \<not> isLoading s \<and> activeDbName s \<noteq> [] \<and> \<not> isTempStorageMode K s \<and>
         activeDbName s \<noteq> DEMO_DB_NAME K
      then w\<lparr>storage :=
               snd (promiseAll
                      [saveDataInStore fails (activeDbName s) STORE_events event_id
                         st_events_update (events s),
                       saveTagsInStore fails (activeDbName s) (customTags s),
                       saveDataInStore fails (activeDbName s) STORE_stepTemplates template_id
                         st_stepTemplates_update (stepTemplates s),
                       saveDataInStore fails (activeDbName s) STORE_stepSetTemplates set_id
                         st_stepSetTemplates_update (stepSetTemplates s)] (storage w))\<rparr>
      else w)"

text \<open>
  The effect that schedules \<open>saveData\<close> (after its 500 ms debounce, which is not
  modelled): nothing is saved while the queue holds an action.
\<close>

definition autosaveEffect :: "Config \<Rightarrow> (IO \<Rightarrow> bool) \<Rightarrow> World \<Rightarrow> World" where
  "autosaveEffect K fails w = (if pendingActions (app w) \<noteq> [] then w else saveData K fails w)"

section \<open>Startup\<close>

text \<open>
  The choice of the active database in \<open>initializeApp\<close>: the name chosen, the list of
  known databases and the local storage as the choice leaves it.
\<close>

definition chooseActiveDb ::
  "Config \<Rightarrow> LocalStorage \<Rightarrow> string list \<Rightarrow> string \<times> string list \<times> LocalStorage" where
  "chooseActiveDb K ls detectedDbNames =
     (let hasLaunchedBefore = (ls_hasLaunchedBefore ls = Some ''true'') in
      if \<not> hasLaunchedBefore
      then (DEFAULT_DB_NAME K,
            if DEFAULT_DB_NAME K \<notin> set detectedDbNames
            then DEFAULT_DB_NAME K # detectedDbNames else detectedDbNames,
            ls\<lparr>ls_activeDbName := Some (DEFAULT_DB_NAME K), ls_hasLaunchedBefore := Some ''true''\<rparr>)
      else
        (case detectedDbNames of
           [] \<Rightarrow> (TEMP_STORAGE_DB_NAME K, detectedDbNames, ls\<lparr>ls_activeDbName := None\<rparr>)
         | first # rest \<Rightarrow>
             (case ls_activeDbName ls of
                Some storedActiveDb \<Rightarrow>
                  if storedActiveDb = [] \<or> storedActiveDb \<notin> set detectedDbNames
                  then
                    (let activeDb =
                           (case find (\<lambda>name. name = DEFAULT_DB_NAME K) detectedDbNames of
                              Some name \<Rightarrow> if name \<noteq> [] then name else first
                            | None \<Rightarrow> first)
                     in (activeDb, detectedDbNames, ls\<lparr>ls_activeDbName := Some activeDb\<rparr>))
                  else (storedActiveDb, detectedDbNames, ls)
              | None \<Rightarrow>
                  (let activeDb =
                         (case find (\<lambda>name. name = DEFAULT_DB_NAME K) detectedDbNames of
                            Some name \<Rightarrow> if name \<noteq> [] then name else first
                          | None \<Rightarrow> first)
                   in (activeDb, detectedDbNames, ls\<lparr>ls_activeDbName := Some activeDb\<rparr>)))))"

text \<open>The \<open>catch\<close> of \<open>initializeApp\<close>, followed by its \<open>finally\<close>.\<close>

definition loadFailed :: "Error \<Rightarrow> App \<Rightarrow> App" where
  "loadFailed e s =
     s\<lparr>dbError := Some e, events := [], customTags := [],
       dbStatus := Some (Msg_loadFailed, Status_error), isLoading := False\<rparr>"

text \<open>
  \<open>initializeApp\<close>, given the engine's list of databases. The loading of the global
  settings, which touches neither the data nor the choice, is left out.
\<close>

definition initializeApp ::
  "Config \<Rightarrow> (IO \<Rightarrow> bool) \<Rightarrow> string option list option \<Rightarrow> World \<Rightarrow> World" where
  "initializeApp K fails listing w =
     (case chooseActiveDb K (localStorage w) (discoverDatabases listing) of
        (activeDb, detectedDbNames, ls') \<Rightarrow>
          (let s1 = (app w)\<lparr>isLoading := True, dbError := None,
                            userDbNames := detectedDbNames, activeDbName := activeDb\<rparr>
           in
           if activeDb = TEMP_STORAGE_DB_NAME K
           then w\<lparr>app := s1\<lparr>events := [], customTags := [], stepTemplates := [],
                              stepSetTemplates := [],
                              dbStatus := Some (Msg_noDatabase, Status_info),
                              isLoading := False\<rparr>,
                  localStorage := ls'\<rparr>
           else
             (case loadData K fails activeDb (storage w) of
                (Inl e, S1) \<Rightarrow> w\<lparr>app := loadFailed e s1, storage := S1, localStorage := ls'\<rparr>
              | (Inr data, S1) \<Rightarrow>
                  if pendingActions (app w) \<noteq> []
                  then
                    (case applyPendingActions (map reviveEventDates (snap_events data))
                            (snap_tags data) (pendingActions (app w)) of
                       (processedEvents, processedTags) \<Rightarrow>
                         (case saveDataToDb K fails activeDb processedEvents processedTags
                                 (snap_stepTemplates data) (snap_stepSetTemplates data) S1 of
                            (Inl e, S2) \<Rightarrow>
                              w\<lparr>app := loadFailed e s1, storage := S2, localStorage := ls'\<rparr>
                          | (Inr _, S2) \<Rightarrow>
                              w\<lparr>app := s1\<lparr>pendingActions := [], events := processedEvents,
                                           customTags := processedTags,
                                           stepTemplates := snap_stepTemplates data,
                                           stepSetTemplates := snap_stepSetTemplates data,
                                           isLoading := False\<rparr>,
                                storage := S2, localStorage := ls'\<rparr>))
                  else
                    w\<lparr>app := s1\<lparr>events := map reviveEventDates (snap_events data),
                                 customTags := snap_tags data,
                                 stepTemplates := snap_stepTemplates data,
                                 stepSetTemplates := snap_stepSetTemplates data,
                                 isLoading := False\<rparr>,
                      storage := S1, localStorage := ls'\<rparr>)))"

text \<open>
  The precedence of the startup choice as the specification words it: the previously
  active name if it is still a discovered database, otherwise the default name if it is
  present, otherwise the first discovered name, otherwise the temporary mode.
\<close>

definition specStartupPrecedence :: "Config \<Rightarrow> string option \<Rightarrow> string list \<Rightarrow> string" where
  "specStartupPrecedence K stored discovered =
     (let fallback =
            (if DEFAULT_DB_NAME K \<in> set discovered then DEFAULT_DB_NAME K
             else (case discovered of [] \<Rightarrow> TEMP_STORAGE_DB_NAME K | first # rest \<Rightarrow> first))
      in case stored of
           None \<Rightarrow> fallback
         | Some previous \<Rightarrow> if previous \<in> set discovered then previous else fallback)"

section \<open>Sorting of the event list\<close>

text \<open>
  The comparator that \<open>filteredEvents\<close> passes to \<open>sort\<close>. JavaScript numbers are
  rendered as reals; \<open>localeCompare\<close>, the collation of the platform, is a parameter.
  The type \<open>SortOrder\<close> is imported from the header component; its values are the
  labels of the \<open>switch\<close>, \<open>createdAt_desc\<close> being the \<open>default\<close> branch.
\<close>

datatype SortOrder =
  createdAt_desc | createdAt_asc | title_asc | title_desc | progress_asc | progress_desc

definition getProgress :: "Event \<Rightarrow> real" where
  "getProgress event =
     (if length (steps event) = 0 then 0
      else real (length (filter completed (steps event))) / real (length (steps event)) * 100)"

definition compareEvents ::
  "(string \<Rightarrow> string \<Rightarrow> real) \<Rightarrow> SortOrder \<Rightarrow> Event \<Rightarrow> Event \<Rightarrow> real" where
  "compareEvents localeCompare sortOrder a b =
     (case sortOrder of
        createdAt_asc \<Rightarrow> real_of_int (createdAt a) - real_of_int (createdAt b)
      | title_asc \<Rightarrow> localeCompare (title a) (title b)
      | title_desc \<Rightarrow> localeCompare (title b) (title a)
      | progress_asc \<Rightarrow> getProgress a - real_of_int (createdAt b)
      | progress_desc \<Rightarrow> getProgress b - getProgress a
      | createdAt_desc \<Rightarrow> real_of_int (createdAt b) - real_of_int (createdAt a))"

text \<open>
  \<open>Array.prototype.sort\<close> belongs to the platform, not to the program. On an array of
  two elements \<open>[x, y]\<close> a comparison sort asks the comparator one question and obeys
  the sign of the answer: either it asks for \<open>(y, x)\<close>, the later element against the
  earlier one, and exchanges the two when the answer is negative (\<open>laterFirst\<close>, the
  way of a sort that inserts or counts runs from the left), or it asks for \<open>(x, y)\<close>
  and exchanges the two when the answer is positive. Both conventions are covered; on a
  consistent comparator they agree.
\<close>

definition sortPair :: "bool \<Rightarrow> ('a \<Rightarrow> 'a \<Rightarrow> real) \<Rightarrow> 'a \<Rightarrow> 'a \<Rightarrow> 'a list" where
  "sortPair laterFirst comparefn x y =
     (if laterFirst
      then (if comparefn y x < 0 then [y, x] else [x, y])
      else (if 0 < comparefn x y then [y, x] else [x, y]))"

text \<open>
  \<open>filteredEvents\<close> for a session that holds two events, with no search text and no
  filter set: the copy of the event list, sorted by the comparator of the chosen order.
\<close>

definition filteredEvents ::
  "bool \<Rightarrow> (string \<Rightarrow> string \<Rightarrow> real) \<Rightarrow> SortOrder \<Rightarrow> Event \<Rightarrow> Event \<Rightarrow> Event list" where
  "filteredEvents laterFirst localeCompare sortOrder x y =
     sortPair laterFirst (compareEvents localeCompare sortOrder) x y"

text \<open>
  The comparator that the label of the order names, ascending progress, as the
  specification words it.
\<close>

definition specProgressAscending :: "Event \<Rightarrow> Event \<Rightarrow> real" where
  "specProgressAscending a b = getProgress a - getProgress b"

section \<open>Export and import of a snapshot\<close>

text \<open>
  The backup document \<open>{version, exportedAt, data: {events, tags, stepTemplates,
  stepSetTemplates}}\<close>. A document read back from a file may lack \<open>data\<close> or any of its
  members (\<open>None\<close>); the text of a file that is not JSON at all is \<open>None\<close> as a whole.
  Serialising to JSON and parsing back keeps the fields of the model: dates come back
  as strings, and the import replaces or revives every one of them.
\<close>

record ExportData =
  data_events :: "Event list option"
  data_tags :: "string list option"
  data_stepTemplates :: "StepTemplate list option"
  data_stepSetTemplates :: "StepSetTemplate list option"

record BackupDocument =
  version :: nat
  exportedAt :: Date
  data :: "ExportData option"

text \<open>
  The clock and the random source are not decided by the program: \<open>now k\<close> is the
  reading of the clock (\<open>Date.now()\<close>, \<open>new Date()\<close>) and \<open>rnd k\<close> the text
  \<open>Math.random().toString(36).substring(2, 9)\<close> at the \<open>k\<close>-th step of an import.
\<close>

definition digitChar :: "nat \<Rightarrow> char" where
  "digitChar d = ''0123456789'' ! d"

fun showNat :: "nat \<Rightarrow> string" where
  "showNat n = (if n < 10 then [digitChar n] else showNat (n div 10) @ [digitChar (n mod 10)])"

declare showNat.simps [simp del]

definition showInt :: "int \<Rightarrow> string" where
  "showInt i = (if i < 0 then CHR ''-'' # showNat (nat (- i)) else showNat (nat i))"

definition generateNewId :: "string \<Rightarrow> Date \<Rightarrow> string \<Rightarrow> string" where
  "generateNewId prefix t r = prefix @ ''-'' @ showInt t @ ''-'' @ r"

fun regenSteps ::
  "(nat \<Rightarrow> Date) \<Rightarrow> (nat \<Rightarrow> string) \<Rightarrow> nat \<Rightarrow> ProgressStep list \<Rightarrow> ProgressStep list \<times> nat" where
  "regenSteps now rnd k [] = ([], k)"
| "regenSteps now rnd k (step # rest) =
     (case regenSteps now rnd (k + 2) rest of
        (rest', k') \<Rightarrow>
          (step\<lparr>step_id := generateNewId ''step'' (now k) (rnd k),
                timestamp := now (k + 1)\<rparr> # rest', k'))"











section \<open>Example states\<close>

definition mkEvent :: "string \<Rightarrow> string \<Rightarrow> Date \<Rightarrow> string list option \<Rightarrow> Event" where
  "mkEvent i t d tgs =
     \<lparr>event_id = i, title = t, description = [], createdAt = d, steps = [],
      imageUrl = None, tags = tgs, hasOriginalImage = None\<rparr>"

definition K0 :: Config where
  "K0 = \<lparr>DEFAULT_DB_NAME = ''essenmelia-db-default'', DEMO_DB_NAME = ''essenmelia-db-demo'',
         TEMP_STORAGE_DB_NAME = ''temp-storage'',
         tutorialEvent = mkEvent ''event-tutorial-1'' ''Tour'' 0 (Some [''tutorial'']),
         tutorialTag = ''tutorial'', demoEvents = [], demoStepTemplates = [],
         demoStepSetTemplates = []\<rparr>"

text \<open>
  A healthy session on the default database with one queued action, as it stands
  right after loading.
\<close>

definition app0 :: App where
  "app0 = \<lparr>activeDbName = ''essenmelia-db-default'', userDbNames = [''essenmelia-db-default''],
           events = [mkEvent ''event-1'' ''Trip'' 1700000000000 (Some [''A''])],
           customTags = [''A''], stepTemplates = [], stepSetTemplates = [],
           isLoading = False,
           pendingActions = [ADD_EVENT (mkEvent ''event-2'' ''Work'' 1700000000001 None) None],
           dbError = None, dbStatus = None, notification = None, eventToEdit = None,
           isDbManagerOpen = False, confirmDiscardChanges = None\<rparr>"

definition world0 :: World where
  "world0 = \<lparr>app = app0,
             storage = \<lparr>databases = [(''essenmelia-db-default'', emptyDatabase)],
                        dbConnections = []\<rparr>,
             localStorage = \<lparr>ls_activeDbName = Some ''essenmelia-db-default'',
                             ls_hasLaunchedBefore = Some ''true''\<rparr>\<rparr>"

text \<open>
  A degraded session: the last write failed, and the queue holds an update of
  \<open>event-1\<close> and a new tag.
\<close>

definition world1 :: World where
  "world1 = world0\<lparr>app := app0
     \<lparr>dbError := Some (StorageError (IO_write ''essenmelia-db-default'' STORE_events)),
      pendingActions :=
        [UPDATE_EVENT (mkEvent ''event-1'' ''Trip to Rome'' 1700000000000 (Some [''A''])) NoImage,
         ADD_TAG ''B'']\<rparr>\<rparr>"

text \<open>
  The degraded session, holding a template edited in memory, beside a second, seeded
  database \<open>essenmelia-db-work\<close>.
\<close>

definition workDb :: Database where
  "workDb =
     \<lparr>st_events = [mkEvent ''event-1'' ''Trip'' 1700000000000 (Some [''A''])],
      st_tags = Some [''A''],
      st_stepTemplates = [\<lparr>template_id = ''template-1'', template_description = ''Plan''\<rparr>],
      st_stepSetTemplates = [], st_isSeeded = True, st_originalImages = []\<rparr>"

definition world2 :: World where
  "world2 = world1
     \<lparr>app := (app world1)
        \<lparr>stepTemplates := [\<lparr>template_id = ''template-9'', template_description = ''Draft''\<rparr>]\<rparr>,
      storage := \<lparr>databases = [(''essenmelia-db-default'', emptyDatabase),
                                (''essenmelia-db-work'', workDb)],
                   dbConnections = [''essenmelia-db-default'']\<rparr>\<rparr>"

text \<open>
  The same degraded session beside a database \<open>essenmelia-db-work\<close> that holds an event
  and a template but not the \<open>isSeeded\<close> mark: the autosave has written it, the loader
  never has.
\<close>

definition unmarkedDb :: Database where
  "unmarkedDb =
     \<lparr>st_events = [mkEvent ''event-7'' ''Garden'' 1700000000007 None],
      st_tags = Some [],
      st_stepTemplates = [\<lparr>template_id = ''template-1'', template_description = ''Plan''\<rparr>],
      st_stepSetTemplates = [], st_isSeeded = False, st_originalImages = []\<rparr>"

definition world3 :: World where
  "world3 = world1
     \<lparr>storage := \<lparr>databases = [(''essenmelia-db-default'', emptyDatabase),
                                (''essenmelia-db-work'', unmarkedDb)],
                   dbConnections = [''essenmelia-db-default'']\<rparr>\<rparr>"

text \<open>
  A degraded session on the default database whose queue holds a new event; a healthy
  session whose memory mirrors the default database, with one queued action; and a
  healthy session on a seeded, empty default database that holds an event added in
  memory and a queued one.
\<close>

definition world4 :: World where
  "world4 = world1\<lparr>app := (app world1)
     \<lparr>pendingActions := [ADD_EVENT (mkEvent ''event-2'' ''Work'' 1700000000001 None) None]\<rparr>\<rparr>"



text \<open>The state before the very first launch: nothing stored, no database.\<close>

definition freshWorld :: World where
  "freshWorld =
     \<lparr>app = \<lparr>activeDbName = [], userDbNames = [], events = [], customTags = [],
              stepTemplates = [], stepSetTemplates = [], isLoading = True,
              pendingActions = [], dbError = None, dbStatus = None, notification = None,
              eventToEdit = None, isDbManagerOpen = False, confirmDiscardChanges = None\<rparr>,
      storage = \<lparr>databases = [], dbConnections = []\<rparr>,
      localStorage = \<lparr>ls_activeDbName = None, ls_hasLaunchedBefore = None\<rparr>\<rparr>"

text \<open>
  A degraded session holding two events, an empty session in the temporary mode, a
  healthy session on an empty default database, and the backup of the first.
\<close>

definition twoEventsWorld :: World where
  "twoEventsWorld = world1\<lparr>app := (app world1)
     \<lparr>events := [mkEvent ''event-2'' ''Work'' 1700000000001 None,
                 mkEvent ''event-1'' ''Trip'' 1700000000000 (Some [''A''])],
      pendingActions := []\<rparr>\<rparr>"




text \<open>Events with progress steps.\<close>

definition mkStep :: "string \<Rightarrow> bool \<Rightarrow> ProgressStep" where
  "mkStep i c = \<lparr>step_id = i, step_description = [], timestamp = 1700000000000, completed = c\<rparr>"

definition halfDone :: Event where
  "halfDone = (mkEvent ''event-1'' ''Half'' 1700000000000 None)
                \<lparr>steps := [mkStep ''s1'' True, mkStep ''s2'' False]\<rparr>"

definition allDone :: Event where
  "allDone = (mkEvent ''event-2'' ''Done'' 1700000000001 None)\<lparr>steps := [mkStep ''s3'' True]\<rparr>"

definition allDoneAtEpoch :: Event where
  "allDoneAtEpoch = allDone\<lparr>createdAt := 0\<rparr>"

section \<open>Properties of the fold\<close>

lemma applyPendingActions_Nil:
  "applyPendingActions evs tgs [] = (evs, tgs)"
  by (simp add: applyPendingActions_def)

lemma applyPendingActions_append:
  "applyPendingActions evs tgs (as @ bs) =
     (case applyPendingActions evs tgs as of (evs', tgs') \<Rightarrow> applyPendingActions evs' tgs' bs)"
  by (simp add: applyPendingActions_def split: prod.splits)

lemma applyAction_distinct_ids:
  assumes "distinct (map event_id (fst st))"
  shows "distinct (map event_id (fst (applyAction a st)))"
proof (cases st)
  case (Pair evs tgs)
  have upd: "(\<lambda>e. event_id (if event_id e = event_id ev then ev else e)) = event_id"
    for ev :: Event
    by (rule ext) simp
  have stp: "(\<lambda>e. event_id (if event_id e = k then e\<lparr>steps := ns\<rparr> else e)) = event_id"
    for k ns
    by (rule ext) simp
  from assms Pair show ?thesis
    by (cases a) (auto simp: list_ex_iff upd stp distinct_map_filter comp_def)
qed

lemma applyPendingActions_distinct_ids:
  "distinct (map event_id evs) \<Longrightarrow>
   distinct (map event_id (fst (applyPendingActions evs tgs actions)))"
proof (induction actions arbitrary: evs tgs)
  case Nil
  then show ?case by (simp add: applyPendingActions_def)
next
  case (Cons a actions)
  obtain evs' tgs' where st: "applyAction a (evs, tgs) = (evs', tgs')"
    by (cases "applyAction a (evs, tgs)")
  from applyAction_distinct_ids [of "(evs, tgs)" a] Cons.prems st
  have "distinct (map event_id evs')" by simp
  from Cons.IH [OF this, of tgs'] st show ?case
    by (simp add: applyPendingActions_def)
qed

text \<open>
  C5. In the fold, an \<open>ADD_EVENT\<close> action prepends the new event unless an event with
  that id is already in the base, in which case the event list is left as it is (no
  duplicate); replaying the same \<open>ADD_EVENT\<close> twice gives the same result as applying
  it once. The tag list is never touched by the action.
\<close>

theorem add_event_idempotent:
  "applyPendingActions evs tgs [ADD_EVENT ev img] =
     (if event_id ev \<in> event_id ` set evs then evs else ev # evs, tgs)
   \<and> applyPendingActions evs tgs [ADD_EVENT ev img, ADD_EVENT ev img'] =
     applyPendingActions evs tgs [ADD_EVENT ev img]"
  by (auto simp: applyPendingActions_def list_ex_iff image_iff dest: sym)

text \<open>
  C6. A \<open>DELETE_TAGS\<close> action removes the given names from the tag collection and from
  the tag set of every event, in one pass of the fold: afterwards neither the tag
  collection nor any event carries a deleted name, every other tag stays, and every
  other field of every event is unchanged. The handler \<open>handleDeleteTags\<close> updates the
  in-memory state in the same way.
\<close>

theorem delete_tags_strips_everywhere:
  "applyPendingActions evs tgs [DELETE_TAGS deleted] =
     (map (\<lambda>e. e\<lparr>tags := map_option (filter (\<lambda>t. t \<notin> set deleted)) (tags e)\<rparr>) evs,
      filter (\<lambda>t. t \<notin> set deleted) tgs)
   \<and> set (snd (applyPendingActions evs tgs [DELETE_TAGS deleted])) = set tgs - set deleted
   \<and> (\<forall>e \<in> set (fst (applyPendingActions evs tgs [DELETE_TAGS deleted])).
        tagsOf e \<inter> set deleted = {})
   \<and> length (fst (applyPendingActions evs tgs [DELETE_TAGS deleted])) = length evs
   \<and> (\<forall>i < length evs.
        tagsOf (fst (applyPendingActions evs tgs [DELETE_TAGS deleted]) ! i)
          = tagsOf (evs ! i) - set deleted
        \<and> (fst (applyPendingActions evs tgs [DELETE_TAGS deleted]) ! i)\<lparr>tags := None\<rparr>
          = (evs ! i)\<lparr>tags := None\<rparr>)
   \<and> events (handleDeleteTags K deleted s) =
        fst (applyPendingActions (events s) (customTags s) [DELETE_TAGS deleted])
   \<and> customTags (handleDeleteTags K deleted s) =
        snd (applyPendingActions (events s) (customTags s) [DELETE_TAGS deleted])"
  by (auto simp: applyPendingActions_def tagsOf_def handleDeleteTags_def Let_def
      split: option.splits)

theorem delete_tags_strips_everywhere_witness:
  "fst (applyPendingActions (events app0) [''A'', ''B''] [DELETE_TAGS [''A'']]) =
     [mkEvent ''event-1'' ''Trip'' 1700000000000 (Some [])]
   \<and> snd (applyPendingActions (events app0) [''A'', ''B''] [DELETE_TAGS [''A'']]) = [''B'']
   \<and> tagsOf (fst (applyPendingActions (events app0) [''A'', ''B''] [DELETE_TAGS [''A'']]) ! 0)
       = tagsOf (events app0 ! 0) - set [''A'']"
  using delete_tags_strips_everywhere [of "events app0" "[''A'', ''B'']" "[''A'']" K0 app0]
  by (simp add: app0_def mkEvent_def applyPendingActions_def tagsOf_def)

section \<open>Queueing of mutations\<close>

lemma handleAddTag_fold_queue:
  "pendingActions (fold (handleAddTag K s) ts a) =
     pendingActions a @
       (if deferred K s then map ADD_TAG (filter (\<lambda>t. t \<notin> set (customTags s)) ts) else [])"
  by (induction ts arbitrary: a) (auto simp: handleAddTag_def)

lemma finalEventOf_id [simp]: "event_id (finalEventOf s ev img) = event_id ev"
  by (simp add: finalEventOf_def Let_def)

lemma filter_update_ADD_TAG [simp]:
  "filter (isUpdateEventFor x) (map ADD_TAG ts) = []"
  by (induction ts) auto

lemma filter_not_update_ADD_TAG [simp]:
  "filter (\<lambda>a. \<not> isUpdateEventFor x a) (map ADD_TAG ts) = map ADD_TAG ts"
  by (induction ts) auto

lemma handleUpdateEvent_queue:
  assumes "deferred K (app w)"
  shows "pendingActions (app (handleUpdateEvent K fails ev img w)) =
           filter (\<lambda>a. \<not> isUpdateEventFor (event_id ev) a)
             (pendingActions (app w) @
              map ADD_TAG (filter (\<lambda>t. t \<notin> set (customTags (app w)))
                 (case tags ev of None \<Rightarrow> [] | Some ts \<Rightarrow> ts)))
           @ [UPDATE_EVENT (finalEventOf (app w) ev img) img]"
proof -
  have tg: "tags (finalEventOf (app w) ev img) = tags ev"
    by (simp add: finalEventOf_def Let_def)
  show ?thesis using assms
    by (simp add: handleUpdateEvent_def Let_def handleAddTag_fold_queue tg
        split: option.splits)
qed

text \<open>
  C4. Queue replacement. When \<open>handleUpdateEvent\<close> queues an \<open>UPDATE_EVENT\<close> for the
  event id X (that is, in the deferred mode), the queue afterwards holds exactly one
  \<open>UPDATE_EVENT\<close> for X, whatever it held before, and that action carries the payload
  of this call; earlier queued updates of X are removed. The other queued actions stay
  in their order, followed by the \<open>ADD_TAG\<close> actions for the new tags of the event.
\<close>

theorem update_event_replaces_queued_update:
  assumes "deferred K (app w)"
  shows "filter (isUpdateEventFor (event_id ev))
           (pendingActions (app (handleUpdateEvent K fails ev img w)))
         = [UPDATE_EVENT (finalEventOf (app w) ev img) img]
       \<and> filter (\<lambda>a. \<not> isUpdateEventFor (event_id ev) a)
           (pendingActions (app (handleUpdateEvent K fails ev img w)))
         = filter (\<lambda>a. \<not> isUpdateEventFor (event_id ev) a) (pendingActions (app w))
           @ map ADD_TAG (filter (\<lambda>t. t \<notin> set (customTags (app w)))
                (case tags ev of None \<Rightarrow> [] | Some ts \<Rightarrow> ts))"
  by (simp add: handleUpdateEvent_queue [OF assms])

theorem update_event_replaces_queued_update_witness:
  "deferred K0 (app world1)
   \<and> list_ex (isUpdateEventFor ''event-1'') (pendingActions (app world1))
   \<and> pendingActions (app (handleUpdateEvent K0 (\<lambda>op. False)
        (mkEvent ''event-1'' ''Trip to Paris'' 1700000000000 (Some [''A''])) NoImage world1))
     = [ADD_TAG ''B'',
        UPDATE_EVENT ((mkEvent ''event-1'' ''Trip to Paris'' 1700000000000 (Some [''A'']))
                        \<lparr>hasOriginalImage := Some False\<rparr>) NoImage]
   \<and> filter (isUpdateEventFor ''event-1'')
        (pendingActions (app (handleUpdateEvent K0 (\<lambda>op. False)
           (mkEvent ''event-1'' ''Trip to Paris'' 1700000000000 (Some [''A''])) NoImage world1)))
     = [UPDATE_EVENT (finalEventOf (app world1)
          (mkEvent ''event-1'' ''Trip to Paris'' 1700000000000 (Some [''A''])) NoImage) NoImage]"
proof -
  have d: "deferred K0 (app world1)"
    by (simp add: deferred_def world1_def world0_def app0_def)
  have l: "list_ex (isUpdateEventFor ''event-1'') (pendingActions (app world1))"
    by (simp add: world1_def world0_def app0_def mkEvent_def)
  have q: "pendingActions (app (handleUpdateEvent K0 (\<lambda>op. False)
        (mkEvent ''event-1'' ''Trip to Paris'' 1700000000000 (Some [''A''])) NoImage world1))
     = [ADD_TAG ''B'',
        UPDATE_EVENT ((mkEvent ''event-1'' ''Trip to Paris'' 1700000000000 (Some [''A'']))
                        \<lparr>hasOriginalImage := Some False\<rparr>) NoImage]"
    unfolding handleUpdateEvent_queue [OF d]
    by (simp add: finalEventOf_def mkEvent_def world1_def world0_def app0_def)
  have i: "event_id (mkEvent ''event-1'' ''Trip to Paris'' 1700000000000 (Some [''A'']))
             = ''event-1''"
    by (simp add: mkEvent_def)
  from update_event_replaces_queued_update [OF d, of
      "mkEvent ''event-1'' ''Trip to Paris'' 1700000000000 (Some [''A''])" "\<lambda>op. False" NoImage]
  have "filter (isUpdateEventFor ''event-1'')
        (pendingActions (app (handleUpdateEvent K0 (\<lambda>op. False)
           (mkEvent ''event-1'' ''Trip to Paris'' 1700000000000 (Some [''A''])) NoImage world1)))
     = [UPDATE_EVENT (finalEventOf (app world1)
          (mkEvent ''event-1'' ''Trip to Paris'' 1700000000000 (Some [''A''])) NoImage) NoImage]"
    unfolding i by (rule conjunct1)
  with d l q show ?thesis by blast
qed

section \<open>The sync engine: outcome of a flush\<close>

text \<open>
  C2. When the write of a flush fails, \<open>performSync\<close> leaves the queue exactly as it
  was (no action removed or reordered), records the error (the degraded flag) and
  reports the failure status; the in-memory events and tags are not touched either.
\<close>

theorem sync_failure_keeps_queue:
  assumes "flushResult K fails w = Inl e"
  shows "pendingActions (app (performSync K fails w)) = pendingActions (app w)
       \<and> dbError (app (performSync K fails w)) = Some e
       \<and> dbStatus (app (performSync K fails w)) = Some (Msg_syncFailed, Status_error)
       \<and> events (app (performSync K fails w)) = events (app w)
       \<and> customTags (app (performSync K fails w)) = customTags (app w)"
  using assms
  by (auto simp: performSync_def flushResult_def Let_def split: prod.splits sum.splits)

theorem sync_failure_keeps_queue_witness:
  "flushResult K0 (\<lambda>op. op = IO_write ''essenmelia-db-default'' STORE_tags) world0
     = Inl (StorageError (IO_write ''essenmelia-db-default'' STORE_tags))
   \<and> pendingActions (app (performSync K0
        (\<lambda>op. op = IO_write ''essenmelia-db-default'' STORE_tags) world0))
     = [ADD_EVENT (mkEvent ''event-2'' ''Work'' 1700000000001 None) None]
   \<and> dbError (app (performSync K0
        (\<lambda>op. op = IO_write ''essenmelia-db-default'' STORE_tags) world0))
     = Some (StorageError (IO_write ''essenmelia-db-default'' STORE_tags))"
proof -
  have f: "flushResult K0 (\<lambda>op. op = IO_write ''essenmelia-db-default'' STORE_tags) world0
             = Inl (StorageError (IO_write ''essenmelia-db-default'' STORE_tags))"
    by (simp add: flushResult_def world0_def app0_def K0_def applyPendingActions_def mkEvent_def
        syncWrites_def saveDataInStore_def saveTagsInStore_def getStore_def initDB_def dbOf_def
        emptyDatabase_def)
  from sync_failure_keeps_queue [OF f] f show ?thesis
    by (simp add: world0_def app0_def)
qed

section \<open>Startup choice of the active database\<close>

lemma initializeApp_activeDbName:
  "activeDbName (app (initializeApp K fails listing w)) =
     fst (chooseActiveDb K (localStorage w) (discoverDatabases listing))"
  by (simp add: initializeApp_def Let_def loadFailed_def split: prod.splits sum.splits)

lemma discoverDatabases_nonempty: "n \<in> set (discoverDatabases listing) \<Longrightarrow> n \<noteq> []"
  by (auto simp: discoverDatabases_def List.map_filter_def startsWith_def DB_PREFIX_def
      split: option.splits if_splits)

lemma find_default:
  "find (\<lambda>name. name = d) xs = (if d \<in> set xs then Some d else None)"
  by (induction xs) auto

text \<open>
  C8 (as amended). Once the application has been launched before, \<open>initializeApp\<close>
  chooses the active database by the fixed precedence: the stored name if it is still
  a discovered database, otherwise the default name if present, otherwise the first
  discovered name, otherwise the temporary mode. On the first launch it chooses the
  default database, whatever is stored or discovered.
\<close>

theorem startup_precedence_after_first_launch:
  "(ls_hasLaunchedBefore (localStorage w) = Some ''true'' \<longrightarrow>
      activeDbName (app (initializeApp K fails listing w)) =
        specStartupPrecedence K (ls_activeDbName (localStorage w)) (discoverDatabases listing))
   \<and> (ls_hasLaunchedBefore (localStorage w) \<noteq> Some ''true'' \<longrightarrow>
      activeDbName (app (initializeApp K fails listing w)) = DEFAULT_DB_NAME K)"
proof -
  have ne: "n \<in> set (discoverDatabases listing) \<Longrightarrow> n \<noteq> []" for n
    by (rule discoverDatabases_nonempty)
  show ?thesis
    unfolding initializeApp_activeDbName
    using ne
    by (auto simp: chooseActiveDb_def specStartupPrecedence_def Let_def find_default
        split: list.splits option.splits)
qed

theorem startup_precedence_after_first_launch_witness:
  "ls_hasLaunchedBefore (localStorage world0) = Some ''true''
   \<and> activeDbName (app (initializeApp K0 (\<lambda>op. False)
        (Some [Some ''essenmelia-db-work'', None, Some ''essenmelia-db-settings'',
               Some ''essenmelia-db-default''])
        (world0\<lparr>localStorage := (localStorage world0)\<lparr>ls_activeDbName := Some ''essenmelia-db-old''\<rparr>\<rparr>)))
     = ''essenmelia-db-default''
   \<and> ls_hasLaunchedBefore (localStorage freshWorld) \<noteq> Some ''true''
   \<and> activeDbName (app (initializeApp K0 (\<lambda>op. False) (Some [Some ''essenmelia-db-work''])
        freshWorld)) = ''essenmelia-db-default''"
  using startup_precedence_after_first_launch [of
      "world0\<lparr>localStorage := (localStorage world0)\<lparr>ls_activeDbName := Some ''essenmelia-db-old''\<rparr>\<rparr>"
      K0 "\<lambda>op. False"
      "Some [Some ''essenmelia-db-work'', None, Some ''essenmelia-db-settings'',
             Some ''essenmelia-db-default'']"]
    startup_precedence_after_first_launch [of freshWorld K0 "\<lambda>op. False"
      "Some [Some ''essenmelia-db-work'']"]
  by (simp add: world0_def freshWorld_def K0_def specStartupPrecedence_def discoverDatabases_def
      List.map_filter_def startsWith_def DB_PREFIX_def SETTINGS_DB_NAME_def)

text \<open>
  The claim as stated fails on the first launch: with nothing stored and no database
  discovered the precedence dictates the temporary mode, and \<open>initializeApp\<close> chooses
  the default database.
\<close>

theorem startup_first_launch_counterexample:
  "activeDbName (app (initializeApp K0 (\<lambda>op. False) (Some []) freshWorld))
     = ''essenmelia-db-default''
   \<and> specStartupPrecedence K0 (ls_activeDbName (localStorage freshWorld))
       (discoverDatabases (Some [])) = ''temp-storage''
   \<and> activeDbName (app (initializeApp K0 (\<lambda>op. False) (Some []) freshWorld))
     \<noteq> specStartupPrecedence K0 (ls_activeDbName (localStorage freshWorld))
         (discoverDatabases (Some []))"
  by (simp add: initializeApp_activeDbName chooseActiveDb_def specStartupPrecedence_def
      discoverDatabases_def freshWorld_def K0_def map_filter_simps)

section \<open>The progress comparator\<close>

lemma getProgress_bounds: "0 \<le> getProgress e \<and> getProgress e \<le> 100"
proof (cases "length (steps e) = 0")
  case True
  then show ?thesis by (simp add: getProgress_def)
next
  case False
  have "length (filter completed (steps e)) \<le> length (steps e)" by (rule length_filter_le)
  then have "real (length (filter completed (steps e))) \<le> real (length (steps e))" by simp
  with False show ?thesis by (simp add: getProgress_def divide_le_eq)
qed

lemma progress_examples:
  "getProgress halfDone = 50" "getProgress allDone = 100" "getProgress allDoneAtEpoch = 100"
  "createdAt halfDone = 1700000000000" "createdAt allDone = 1700000000001"
  "createdAt allDoneAtEpoch = 0"
  by (simp_all add: getProgress_def halfDone_def allDone_def allDoneAtEpoch_def mkEvent_def
      mkStep_def)

text \<open>
  C9. For the order "ascending progress" the comparator computes the progress of the
  first event minus the creation time of the second, and the list that \<open>filteredEvents\<close>
  shows is not ordered by progress. For two events created later than 100 ms after the
  epoch (every event of the present day) the progress decides nothing: a sort that asks
  for the later element first reverses the two, a sort that asks for the earlier one
  first leaves them as they are. So there are events \<open>a\<close>, \<open>b\<close> of the present day with
  \<open>getProgress a < getProgress b\<close> that are shown with \<open>b\<close> before \<open>a\<close>: under the first
  convention when the session holds \<open>a\<close> before \<open>b\<close>, under the second when it holds \<open>b\<close>
  before \<open>a\<close>; the comparator by ascending progress shows \<open>a\<close> before \<open>b\<close> in every
  case. And there are events \<open>a\<close>, \<open>b\<close> with \<open>getProgress a < getProgress b\<close>, the second
  created at the epoch, that are shown with \<open>b\<close> before \<open>a\<close> under both conventions and in
  both arrangements.
\<close>

theorem progress_asc_comparator_malformed:
  "compareEvents lc progress_asc x y = getProgress x - real_of_int (createdAt y)
   \<and> (100 < createdAt x \<and> 100 < createdAt y \<longrightarrow>
      filteredEvents True lc progress_asc x y = [y, x]
    \<and> filteredEvents False lc progress_asc x y = [x, y])
   \<and> (\<exists>a b. getProgress a < getProgress b \<and> 100 < createdAt a \<and> 100 < createdAt b
          \<and> filteredEvents True lc progress_asc a b = [b, a]
          \<and> filteredEvents False lc progress_asc b a = [b, a]
          \<and> (\<forall>laterFirst. sortPair laterFirst specProgressAscending a b = [a, b]
                         \<and> sortPair laterFirst specProgressAscending b a = [a, b]))
   \<and> (\<exists>a b. getProgress a < getProgress b
          \<and> (\<forall>laterFirst. filteredEvents laterFirst lc progress_asc a b = [b, a]
                         \<and> filteredEvents laterFirst lc progress_asc b a = [b, a]))"
proof -
  have g: "100 < createdAt x \<and> 100 < createdAt y \<longrightarrow>
      filteredEvents True lc progress_asc x y = [y, x]
    \<and> filteredEvents False lc progress_asc x y = [x, y]"
  proof
    assume c: "100 < createdAt x \<and> 100 < createdAt y"
    then have "(100 :: real) < real_of_int (createdAt x)" "(100 :: real) < real_of_int (createdAt y)"
      by simp_all
    with getProgress_bounds [of x] getProgress_bounds [of y]
    have "getProgress y - real_of_int (createdAt x) < 0"
      "\<not> 0 < getProgress x - real_of_int (createdAt y)"
      by simp_all
    then show "filteredEvents True lc progress_asc x y = [y, x]
             \<and> filteredEvents False lc progress_asc x y = [x, y]"
      by (simp add: filteredEvents_def sortPair_def compareEvents_def)
  qed
  have e1: "getProgress halfDone < getProgress allDone \<and> 100 < createdAt halfDone
          \<and> 100 < createdAt allDone
          \<and> filteredEvents True lc progress_asc halfDone allDone = [allDone, halfDone]
          \<and> filteredEvents False lc progress_asc allDone halfDone = [allDone, halfDone]
          \<and> (\<forall>laterFirst.
                sortPair laterFirst specProgressAscending halfDone allDone = [halfDone, allDone]
              \<and> sortPair laterFirst specProgressAscending allDone halfDone = [halfDone, allDone])"
    by (simp add: filteredEvents_def sortPair_def compareEvents_def specProgressAscending_def
        progress_examples)
  have e2: "getProgress halfDone < getProgress allDoneAtEpoch
          \<and> (\<forall>laterFirst.
                filteredEvents laterFirst lc progress_asc halfDone allDoneAtEpoch =
                  [allDoneAtEpoch, halfDone]
              \<and> filteredEvents laterFirst lc progress_asc allDoneAtEpoch halfDone =
                  [allDoneAtEpoch, halfDone])"
    by (simp add: filteredEvents_def sortPair_def compareEvents_def progress_examples)
  have v: "compareEvents lc progress_asc x y = getProgress x - real_of_int (createdAt y)"
    by (simp add: compareEvents_def)
  from v g e1 e2 show ?thesis by blast
qed

theorem progress_asc_comparator_malformed_witness:
  "100 < createdAt halfDone \<and> 100 < createdAt allDone
   \<and> getProgress halfDone < getProgress allDone
   \<and> filteredEvents True (\<lambda>s t. 0) progress_asc halfDone allDone = [allDone, halfDone]
   \<and> filteredEvents False (\<lambda>s t. 0) progress_asc allDone halfDone = [allDone, halfDone]"
  using progress_asc_comparator_malformed [where x = halfDone and y = allDone
      and lc = "\<lambda>s t. 0"]
    progress_asc_comparator_malformed [where x = allDone and y = halfDone
      and lc = "\<lambda>s t. 0"]
  by (simp add: progress_examples)

section \<open>The store adapter: what the operations change\<close>

subsection \<open>put\<close>

lemma put_fresh:
  "key item \<notin> key ` set xs \<Longrightarrow> put key item xs = xs @ [item]"
  by (induction xs) auto

lemma fold_put_distinct:
  "distinct (map key (acc @ items)) \<Longrightarrow> fold (put key) items acc = acc @ items"
proof (induction items arbitrary: acc)
  case Nil
  then show ?case by simp
next
  case (Cons x items)
  from Cons.prems have fresh: "key x \<notin> key ` set acc" by auto
  from Cons.prems have "distinct (map key ((acc @ [x]) @ items))" by auto
  from Cons.IH [OF this] fresh show ?case by (simp add: put_fresh)
qed

lemma fold_put_keyed:
  "distinct (map key items) \<Longrightarrow> fold (put key) items [] = items"
  using fold_put_distinct [of key "[]" items] by simp

subsection \<open>getStore\<close>

lemma getStore_dbOf:
  "dbOf (snd (getStore fails rq n f S)) m =
     (if m = n \<and> reachable fails S n \<and> \<not> fails rq then snd (f (dbOf S n)) else dbOf S m)"
  by (auto simp: getStore_def initDB_def reachable_def dbOf_def update_conv' split: prod.splits)

lemma getStore_result:
  "fst (getStore fails rq n f S) =
     (if reachable fails S n then
        (if fails rq then Inl (StorageError rq) else Inr (fst (f (dbOf S n))))
      else Inl (StorageError (IO_open n)))"
  by (auto simp: getStore_def initDB_def reachable_def dbOf_def update_conv' split: prod.splits)

lemma getStore_reachable:
  "reachable fails (snd (getStore fails rq n f S)) m = reachable fails S m"
  by (auto simp: getStore_def initDB_def reachable_def split: prod.splits)

lemma initDB_dbOf: "dbOf (snd (initDB fails n S)) m = dbOf S m"
  by (simp add: initDB_def dbOf_def update_conv')

lemma initDB_result:
  "fst (initDB fails n S) = (if reachable fails S n then Inr () else Inl (StorageError (IO_open n)))"
  by (simp add: initDB_def reachable_def)

lemma initDB_reachable: "reachable fails (snd (initDB fails n S)) m = reachable fails S m"
  by (auto simp: initDB_def reachable_def)

lemmas adapter_defs =
  saveDataInStore_def saveTagsInStore_def getAllDataFromStore_def getTagsFromStore_def
  saveDataInStoreByKey_def deleteDataFromStoreByKey_def getMetadata_def saveMetadata_def

lemmas getStore_simps = getStore_dbOf getStore_result getStore_reachable

subsection \<open>promiseAll\<close>

lemma promiseAll_snd: "snd (promiseAll (p # ps) S) = snd (promiseAll ps (snd (p S)))"
  by (simp split: prod.splits)

lemma promiseAll_ok:
  "fst (promiseAll (p # ps) S) = Inr () \<longleftrightarrow>
     fst (p S) = Inr () \<and> fst (promiseAll ps (snd (p S))) = Inr ()"
  by (auto split: prod.splits sum.splits)

declare promiseAll.simps(2) [simp del]

lemma promiseAll_frame:
  assumes "\<And>p S. p \<in> set ps \<Longrightarrow> g (dbOf (snd (p S)) m) = g (dbOf S m)"
  shows "g (dbOf (snd (promiseAll ps S)) m) = g (dbOf S m)"
  using assms
proof (induction ps arbitrary: S)
  case Nil
  then show ?case by simp
next
  case (Cons p ps)
  have "g (dbOf (snd (promiseAll ps (snd (p S)))) m) = g (dbOf (snd (p S)) m)"
    by (rule Cons.IH) (simp add: Cons.prems)
  also have "\<dots> = g (dbOf S m)" by (simp add: Cons.prems)
  finally show ?case by (simp add: promiseAll_snd)
qed

lemma promiseAll_reachable:
  assumes "\<And>p S. p \<in> set ps \<Longrightarrow> reachable fails (snd (p S)) m = reachable fails S m"
  shows "reachable fails (snd (promiseAll ps S)) m = reachable fails S m"
  using assms
proof (induction ps arbitrary: S)
  case Nil
  then show ?case by simp
next
  case (Cons p ps)
  have "reachable fails (snd (promiseAll ps (snd (p S)))) m = reachable fails (snd (p S)) m"
    by (rule Cons.IH) (simp add: Cons.prems)
  then show ?case by (simp add: promiseAll_snd Cons.prems)
qed

subsection \<open>saveDataToDb\<close>

lemma saveDataToDb_ok_content:
  assumes "fst (saveDataToDb K fails n ev tg tp sets S) = Inr ()"
    and "n \<noteq> DEMO_DB_NAME K" "n \<noteq> TEMP_STORAGE_DB_NAME K"
  shows "dbOf (snd (saveDataToDb K fails n ev tg tp sets S)) m =
           (if m = n
            then (dbOf S n)\<lparr>st_events := fold (put event_id) ev [], st_tags := Some tg,
                           st_stepTemplates := fold (put template_id) tp [],
                           st_stepSetTemplates := fold (put set_id) sets []\<rparr>
            else dbOf S m)"
  using assms
  by (simp add: saveDataToDb_def promiseAll_ok promiseAll_snd adapter_defs getStore_simps
      split: if_splits)

lemma saveDataToDb_templates_frame:
  assumes "fold (put template_id) tp [] = st_stepTemplates (dbOf S n)"
  shows "st_stepTemplates (dbOf (snd (saveDataToDb K fails n ev tg tp sets S)) m) =
           st_stepTemplates (dbOf S m)"
  using assms
  by (simp add: saveDataToDb_def promiseAll_snd adapter_defs getStore_simps)

lemma saveDataToDb_sets_frame:
  assumes "fold (put set_id) sets [] = st_stepSetTemplates (dbOf S n)"
  shows "st_stepSetTemplates (dbOf (snd (saveDataToDb K fails n ev tg tp sets S)) m) =
           st_stepSetTemplates (dbOf S m)"
  using assms
  by (simp add: saveDataToDb_def promiseAll_snd adapter_defs getStore_simps)


subsection \<open>Reads change nothing\<close>

lemma getAllDataFromStore_dbOf [simp]:
  "dbOf (snd (getAllDataFromStore fails n st field S)) m = dbOf S m"
  by (simp add: getAllDataFromStore_def getStore_dbOf)

lemma getTagsFromStore_dbOf [simp]:
  "dbOf (snd (getTagsFromStore fails n S)) m = dbOf S m"
  by (simp add: getTagsFromStore_def getStore_dbOf)

lemma getMetadata_dbOf [simp]:
  "dbOf (snd (getMetadata fails n S)) m = dbOf S m"
  by (simp add: getMetadata_def getStore_dbOf)

lemma getAllDataFromStore_result:
  "fst (getAllDataFromStore fails n st field S) = Inr xs \<Longrightarrow> xs = field (dbOf S n)"
  by (simp add: getAllDataFromStore_def getStore_result split: if_splits)

lemma getTagsFromStore_result:
  "fst (getTagsFromStore fails n S) = Inr ts \<Longrightarrow>
   ts = (case st_tags (dbOf S n) of None \<Rightarrow> [] | Some ts \<Rightarrow> ts)"
  by (simp add: getTagsFromStore_def getStore_result split: if_splits)

lemma getMetadata_result:
  "fst (getMetadata fails n S) = Inr b \<Longrightarrow> b = st_isSeeded (dbOf S n)"
  by (simp add: getMetadata_def getStore_result split: if_splits)

lemma getMetadata_ok_reachable:
  "fst (getMetadata fails n S) = Inr b \<Longrightarrow> reachable fails S n"
  by (simp add: getMetadata_def getStore_result split: if_splits)

subsection \<open>The reachability of a database does not change\<close>

lemma adapter_reachable [simp]:
  "reachable fails (snd (saveDataInStore fails n st key upd items S)) m = reachable fails S m"
  "reachable fails (snd (saveTagsInStore fails n tg S)) m = reachable fails S m"
  "reachable fails (snd (getAllDataFromStore fails n st field S)) m = reachable fails S m"
  "reachable fails (snd (getTagsFromStore fails n S)) m = reachable fails S m"
  "reachable fails (snd (getMetadata fails n S)) m = reachable fails S m"
  "reachable fails (snd (saveMetadata fails n b S)) m = reachable fails S m"
  "reachable fails (snd (saveDataInStoreByKey fails n f k S)) m = reachable fails S m"
  "reachable fails (snd (deleteDataFromStoreByKey fails n k S)) m = reachable fails S m"
  by (simp_all add: adapter_defs getStore_reachable)

subsection \<open>Writes that leave the templates alone\<close>

lemma saveEvents_templates [simp]:
  "st_stepTemplates (dbOf (snd (saveDataInStore fails n STORE_events event_id st_events_update
      items S)) m) = st_stepTemplates (dbOf S m)"
  "st_stepSetTemplates (dbOf (snd (saveDataInStore fails n STORE_events event_id st_events_update
      items S)) m) = st_stepSetTemplates (dbOf S m)"
  by (simp_all add: saveDataInStore_def getStore_dbOf)

lemma saveTags_templates [simp]:
  "st_stepTemplates (dbOf (snd (saveTagsInStore fails n tg S)) m) = st_stepTemplates (dbOf S m)"
  "st_stepSetTemplates (dbOf (snd (saveTagsInStore fails n tg S)) m) =
     st_stepSetTemplates (dbOf S m)"
  by (simp_all add: saveTagsInStore_def getStore_dbOf)

lemma saveMetadata_templates [simp]:
  "st_stepTemplates (dbOf (snd (saveMetadata fails n b S)) m) = st_stepTemplates (dbOf S m)"
  "st_stepSetTemplates (dbOf (snd (saveMetadata fails n b S)) m) =
     st_stepSetTemplates (dbOf S m)"
  by (simp_all add: saveMetadata_def getStore_dbOf)

lemma images_templates [simp]:
  "st_stepTemplates (dbOf (snd (saveDataInStoreByKey fails n f k S)) m) =
     st_stepTemplates (dbOf S m)"
  "st_stepSetTemplates (dbOf (snd (saveDataInStoreByKey fails n f k S)) m) =
     st_stepSetTemplates (dbOf S m)"
  "st_stepTemplates (dbOf (snd (deleteDataFromStoreByKey fails n k S)) m) =
     st_stepTemplates (dbOf S m)"
  "st_stepSetTemplates (dbOf (snd (deleteDataFromStoreByKey fails n k S)) m) =
     st_stepSetTemplates (dbOf S m)"
  by (simp_all add: saveDataInStoreByKey_def deleteDataFromStoreByKey_def getStore_dbOf)

lemma saveSets_templates [simp]:
  "st_stepTemplates (dbOf (snd (saveDataInStore fails n STORE_stepSetTemplates set_id
      st_stepSetTemplates_update items S)) m) = st_stepTemplates (dbOf S m)"
  by (simp add: saveDataInStore_def getStore_dbOf)

lemma saveTemplates_sets [simp]:
  "st_stepSetTemplates (dbOf (snd (saveDataInStore fails n STORE_stepTemplates template_id
      st_stepTemplates_update items S)) m) = st_stepSetTemplates (dbOf S m)"
  by (simp add: saveDataInStore_def getStore_dbOf)

lemma saveTemplates_same:
  "fold (put template_id) items [] = st_stepTemplates (dbOf S n) \<Longrightarrow>
   st_stepTemplates (dbOf (snd (saveDataInStore fails n STORE_stepTemplates template_id
      st_stepTemplates_update items S)) m) = st_stepTemplates (dbOf S m)"
  by (simp add: saveDataInStore_def getStore_dbOf)

lemma saveSets_same:
  "fold (put set_id) items [] = st_stepSetTemplates (dbOf S n) \<Longrightarrow>
   st_stepSetTemplates (dbOf (snd (saveDataInStore fails n STORE_stepSetTemplates set_id
      st_stepSetTemplates_update items S)) m) = st_stepSetTemplates (dbOf S m)"
  by (simp add: saveDataInStore_def getStore_dbOf)

subsection \<open>loadData\<close>

lemma reviveEventDates_id [simp]: "reviveEventDates e = e"
  by (simp add: reviveEventDates_def)

lemma map_reviveEventDates [simp]: "map reviveEventDates es = es"
  by (induction es) simp_all

lemma seedDatabase_reachable [simp]:
  "reachable fails (snd (seedDatabase fails n ev tg S)) m = reachable fails S m"
  by (simp add: seedDatabase_def case_prod_unfold promiseAll_snd split: sum.splits)

lemma readDatabase_reachable [simp]:
  "reachable fails (snd (readDatabase fails n S)) m = reachable fails S m"
  by (simp add: readDatabase_def case_prod_unfold)

lemma readDatabase_dbOf [simp]:
  "dbOf (snd (readDatabase fails n S)) m = dbOf S m"
  by (simp add: readDatabase_def case_prod_unfold)

lemma readDatabase_result:
  assumes "fst (readDatabase fails n S) = Inr t"
  shows "t = \<lparr>snap_events = st_events (dbOf S n),
              snap_tags = (case st_tags (dbOf S n) of None \<Rightarrow> [] | Some ts \<Rightarrow> ts),
              snap_stepTemplates = st_stepTemplates (dbOf S n),
              snap_stepSetTemplates = st_stepSetTemplates (dbOf S n)\<rparr>"
proof -
  let ?S1 = "snd (getAllDataFromStore fails n STORE_events st_events S)"
  let ?S2 = "snd (getTagsFromStore fails n ?S1)"
  let ?S3 = "snd (getAllDataFromStore fails n STORE_stepTemplates st_stepTemplates ?S2)"
  from assms obtain e g p q where
    r1: "fst (getAllDataFromStore fails n STORE_events st_events S) = Inr e" and
    r2: "fst (getTagsFromStore fails n ?S1) = Inr g" and
    r3: "fst (getAllDataFromStore fails n STORE_stepTemplates st_stepTemplates ?S2) = Inr p" and
    r4: "fst (getAllDataFromStore fails n STORE_stepSetTemplates st_stepSetTemplates ?S3) = Inr q"
    and t: "t = \<lparr>snap_events = e, snap_tags = g, snap_stepTemplates = p,
                   snap_stepSetTemplates = q\<rparr>"
    by (auto simp: readDatabase_def case_prod_unfold split: sum.splits)
  from getAllDataFromStore_result [OF r1] getTagsFromStore_result [OF r2]
    getAllDataFromStore_result [OF r3] getAllDataFromStore_result [OF r4] t
  show ?thesis by simp
qed

lemma seedDatabase_result:
  "fst (seedDatabase fails n ev tg S) = Inr t \<Longrightarrow>
   t = \<lparr>snap_events = ev, snap_tags = tg, snap_stepTemplates = [],
         snap_stepSetTemplates = []\<rparr>"
  by (auto simp: seedDatabase_def case_prod_unfold split: sum.splits)

lemma seedDatabase_templates:
  assumes "st_stepTemplates (dbOf S n) = []" "st_stepSetTemplates (dbOf S n) = []"
  shows "st_stepTemplates (dbOf (snd (seedDatabase fails n ev tg S)) m) =
           st_stepTemplates (dbOf S m)
       \<and> st_stepSetTemplates (dbOf (snd (seedDatabase fails n ev tg S)) m) =
           st_stepSetTemplates (dbOf S m)"
  using assms
  by (simp add: seedDatabase_def case_prod_unfold promiseAll_snd saveTemplates_same
      saveSets_same split: sum.splits)

lemma loadData_reachable [simp]:
  "reachable fails (snd (loadData K fails n S)) m = reachable fails S m"
  by (simp add: loadData_def case_prod_unfold initDB_reachable split: sum.splits)

lemma loadData_ok_reachable:
  assumes "fst (loadData K fails n S) = Inr t" and "n \<noteq> DEMO_DB_NAME K"
  shows "reachable fails S n"
  using assms
  by (simp add: loadData_def case_prod_unfold initDB_result split: sum.splits if_splits)

lemma loadData_ok_baseline:
  assumes "fst (loadData K fails n S) = Inr t" and "n \<noteq> DEMO_DB_NAME K"
  shows "t = baselineOf K S n"
proof -
  let ?S1 = "snd (initDB fails n S)"
  let ?S2 = "snd (getMetadata fails n ?S1)"
  from assms obtain b where
    m: "fst (getMetadata fails n ?S1) = Inr b" and
    r: "(if \<not> b \<and> n = DEFAULT_DB_NAME K
         then fst (seedDatabase fails n [tutorialEvent K] [tutorialTag K] ?S2)
         else if \<not> b then fst (seedDatabase fails n [] [] ?S2)
         else fst (readDatabase fails n ?S2)) = Inr t"
    by (auto simp: loadData_def case_prod_unfold split: sum.splits if_splits)
  from getMetadata_result [OF m] have b: "b = st_isSeeded (dbOf S n)"
    by (simp add: initDB_dbOf)
  show ?thesis
  proof (cases b)
    case True
    with r have "fst (readDatabase fails n ?S2) = Inr t" by simp
    from readDatabase_result [OF this] True b show ?thesis
      by (simp add: baselineOf_def Let_def initDB_dbOf)
  next
    case False
    show ?thesis
    proof (cases "n = DEFAULT_DB_NAME K")
      case True
      with r False
      have "fst (seedDatabase fails n [tutorialEvent K] [tutorialTag K] ?S2) = Inr t" by simp
      from seedDatabase_result [OF this] True False b show ?thesis
        by (simp add: baselineOf_def Let_def)
    next
      case nd: False
      with r False have "fst (seedDatabase fails n [] [] ?S2) = Inr t" by simp
      from seedDatabase_result [OF this] nd False b show ?thesis
        by (simp add: baselineOf_def Let_def)
    qed
  qed
qed

lemma loadData_templates_frame:
  assumes "st_isSeeded (dbOf S n) \<or>
           (st_stepTemplates (dbOf S n) = [] \<and> st_stepSetTemplates (dbOf S n) = [])"
  shows "st_stepTemplates (dbOf (snd (loadData K fails n S)) m) = st_stepTemplates (dbOf S m)
       \<and> st_stepSetTemplates (dbOf (snd (loadData K fails n S)) m) =
           st_stepSetTemplates (dbOf S m)"
proof -
  let ?S1 = "snd (initDB fails n S)"
  let ?S2 = "snd (getMetadata fails n ?S1)"
  have d2: "dbOf ?S2 k = dbOf S k" for k
    by (simp add: initDB_dbOf)
  show ?thesis
  proof (cases "n = DEMO_DB_NAME K")
    case True
    then show ?thesis by (simp add: loadData_def)
  next
    case nd: False
    show ?thesis
    proof (cases "fst (initDB fails n S)")
      case (Inl e)
      with nd show ?thesis by (simp add: loadData_def case_prod_unfold initDB_dbOf)
    next
      case (Inr u)
      note i = this
      show ?thesis
      proof (cases "fst (getMetadata fails n ?S1)")
        case (Inl e)
        with nd i show ?thesis by (simp add: loadData_def case_prod_unfold initDB_dbOf)
      next
        case (Inr b)
        from getMetadata_result [OF Inr] have b: "b = st_isSeeded (dbOf S n)"
          by (simp add: initDB_dbOf)
        show ?thesis
        proof (cases b)
          case True
          with nd i Inr show ?thesis
            by (simp add: loadData_def case_prod_unfold initDB_dbOf)
        next
          case False
          with b assms have e: "st_stepTemplates (dbOf ?S2 n) = []"
            "st_stepSetTemplates (dbOf ?S2 n) = []"
            by (simp_all add: initDB_dbOf)
          have sd: "st_stepTemplates (dbOf (snd (seedDatabase fails n ev tg ?S2)) m) =
                      st_stepTemplates (dbOf S m)
                  \<and> st_stepSetTemplates (dbOf (snd (seedDatabase fails n ev tg ?S2)) m) =
                      st_stepSetTemplates (dbOf S m)" for ev tg
            using seedDatabase_templates [OF e, of fails ev tg m] d2 by simp
          show ?thesis
          proof (cases "n = DEFAULT_DB_NAME K")
            case True
            with sd [of "[tutorialEvent K]" "[tutorialTag K]"] nd i Inr False show ?thesis
              by (simp add: loadData_def case_prod_unfold)
          next
            case df: False
            with sd [of "[]" "[]"] nd i Inr False show ?thesis
              by (simp add: loadData_def case_prod_unfold)
          qed
        qed
      qed
    qed
  qed
qed

subsection \<open>The seeded mark\<close>

lemma saveDataToDb_isSeeded:
  "st_isSeeded (dbOf (snd (saveDataToDb K fails n ev tg tp sets S)) m) = st_isSeeded (dbOf S m)"
  by (simp add: saveDataToDb_def promiseAll_snd adapter_defs getStore_simps)

lemma seedDatabase_ok_seeded:
  assumes "fst (seedDatabase fails n ev tg S) = Inr t"
  shows "st_isSeeded (dbOf (snd (seedDatabase fails n ev tg S)) n)"
proof -
  let ?W = "promiseAll
             [saveDataInStore fails n STORE_events event_id st_events_update ev,
              saveTagsInStore fails n tg,
              saveDataInStore fails n STORE_stepTemplates template_id st_stepTemplates_update [],
              saveDataInStore fails n STORE_stepSetTemplates set_id
                st_stepSetTemplates_update []] S"
  from assms obtain u v where
    w: "fst ?W = Inr u" and m: "fst (saveMetadata fails n True (snd ?W)) = Inr v"
    by (auto simp: seedDatabase_def case_prod_unfold split: sum.splits)
  from m have "st_isSeeded (dbOf (snd (saveMetadata fails n True (snd ?W))) n)"
    by (simp add: saveMetadata_def getStore_simps split: if_splits)
  with w m show ?thesis
    by (simp add: seedDatabase_def case_prod_unfold)
qed

lemma loadData_ok_seeded:
  assumes "fst (loadData K fails n S) = Inr t" and "n \<noteq> DEMO_DB_NAME K"
  shows "st_isSeeded (dbOf (snd (loadData K fails n S)) n)"
proof -
  let ?S1 = "snd (initDB fails n S)"
  let ?S2 = "snd (getMetadata fails n ?S1)"
  from assms obtain u b where
    i: "fst (initDB fails n S) = Inr u" and
    m: "fst (getMetadata fails n ?S1) = Inr b" and
    r: "(if \<not> b \<and> n = DEFAULT_DB_NAME K
         then fst (seedDatabase fails n [tutorialEvent K] [tutorialTag K] ?S2)
         else if \<not> b then fst (seedDatabase fails n [] [] ?S2)
         else fst (readDatabase fails n ?S2)) = Inr t"
    by (auto simp: loadData_def case_prod_unfold split: sum.splits if_splits)
  from getMetadata_result [OF m] have b: "b = st_isSeeded (dbOf S n)"
    by (simp add: initDB_dbOf)
  show ?thesis
  proof (cases b)
    case True
    with assms(2) i m b show ?thesis
      by (simp add: loadData_def case_prod_unfold initDB_dbOf)
  next
    case False
    show ?thesis
    proof (cases "n = DEFAULT_DB_NAME K")
      case True
      with r False
      have "fst (seedDatabase fails n [tutorialEvent K] [tutorialTag K] ?S2) = Inr t" by simp
      from seedDatabase_ok_seeded [OF this] assms(2) i m False True show ?thesis
        by (simp add: loadData_def case_prod_unfold)
    next
      case nd: False
      with r False have "fst (seedDatabase fails n [] [] ?S2) = Inr t" by simp
      from seedDatabase_ok_seeded [OF this] assms(2) i m False nd show ?thesis
        by (simp add: loadData_def case_prod_unfold)
    qed
  qed
qed

subsection \<open>Switch\<close>

lemma baselineOf_distinct:
  assumes "distinct (map event_id (st_events (dbOf S n)))"
  shows "distinct (map event_id (snap_events (baselineOf K S n)))"
  using assms by (simp add: baselineOf_def Let_def)

lemma baselineOf_seeded:
  assumes "st_isSeeded (dbOf S n)"
  shows "baselineOf K S n =
           \<lparr>snap_events = st_events (dbOf S n),
            snap_tags = (case st_tags (dbOf S n) of None \<Rightarrow> [] | Some ts \<Rightarrow> ts),
            snap_stepTemplates = st_stepTemplates (dbOf S n),
            snap_stepSetTemplates = st_stepSetTemplates (dbOf S n)\<rparr>"
  using assms by (simp add: baselineOf_def Let_def)

lemma baselineOf_templates:
  assumes "st_isSeeded (dbOf S n) \<or>
           (st_stepTemplates (dbOf S n) = [] \<and> st_stepSetTemplates (dbOf S n) = [])"
  shows "snap_stepTemplates (baselineOf K S n) = st_stepTemplates (dbOf S n)"
    and "snap_stepSetTemplates (baselineOf K S n) = st_stepSetTemplates (dbOf S n)"
  using assms by (auto simp: baselineOf_def Let_def)

lemma baselineOf_events:
  assumes "st_isSeeded (dbOf S n) \<or> (st_events (dbOf S n) = [] \<and> st_tags (dbOf S n) = None)"
  shows "snap_events (baselineOf K S n) =
           (if n = DEFAULT_DB_NAME K \<and> \<not> st_isSeeded (dbOf S n) then [tutorialEvent K]
            else st_events (dbOf S n))"
    and "snap_tags (baselineOf K S n) =
           (if n = DEFAULT_DB_NAME K \<and> \<not> st_isSeeded (dbOf S n) then [tutorialTag K]
            else case st_tags (dbOf S n) of None \<Rightarrow> [] | Some ts \<Rightarrow> ts)"
  using assms by (auto simp: baselineOf_def Let_def)

lemma handleSwitchDb_merge:
  assumes "dbError (app w) \<noteq> None" and "pendingActions (app w) \<noteq> []"
    and "n \<noteq> activeDbName (app w)" and "n \<noteq> DEMO_DB_NAME K"
    and "n \<noteq> TEMP_STORAGE_DB_NAME K"
  shows "handleSwitchDb K fails n w =
     (case fst (loadData K fails n (storage w)) of
        Inl e \<Rightarrow> switchFailed n e (snd (loadData K fails n (storage w))) w
      | Inr t \<Rightarrow>
          (case fst (saveDataToDb K fails n
                  (fst (applyPendingActions (snap_events t) (snap_tags t) (pendingActions (app w))))
                  (snd (applyPendingActions (snap_events t) (snap_tags t) (pendingActions (app w))))
                  (snap_stepTemplates t) (snap_stepSetTemplates t)
                  (snd (loadData K fails n (storage w)))) of
             Inl e \<Rightarrow>
               switchFailed n e
                 (snd (saveDataToDb K fails n
                  (fst (applyPendingActions (snap_events t) (snap_tags t) (pendingActions (app w))))
                  (snd (applyPendingActions (snap_events t) (snap_tags t) (pendingActions (app w))))
                  (snap_stepTemplates t) (snap_stepSetTemplates t)
                  (snd (loadData K fails n (storage w))))) w
           | Inr u \<Rightarrow>
               adoptSnapshot n
                 (fst (applyPendingActions (snap_events t) (snap_tags t) (pendingActions (app w))))
                 (snd (applyPendingActions (snap_events t) (snap_tags t) (pendingActions (app w))))
                 (snap_stepTemplates t) (snap_stepSetTemplates t) Msg_merged
                 (snd (saveDataToDb K fails n
                  (fst (applyPendingActions (snap_events t) (snap_tags t) (pendingActions (app w))))
                  (snd (applyPendingActions (snap_events t) (snap_tags t) (pendingActions (app w))))
                  (snap_stepTemplates t) (snap_stepSetTemplates t)
                  (snd (loadData K fails n (storage w))))) w))"
  using assms
  by (simp add: handleSwitchDb_def Let_def case_prod_unfold split: sum.splits)

text \<open>
  What a merging switch that succeeds leaves behind, in terms of the snapshot that the
  loader hands over for the target.
\<close>

lemma handleSwitchDb_merge_ok:
  assumes "dbError (app w) \<noteq> None" and "pendingActions (app w) \<noteq> []"
    and "n \<noteq> activeDbName (app w)" and "n \<noteq> DEMO_DB_NAME K"
    and "n \<noteq> TEMP_STORAGE_DB_NAME K"
    and ok: "dbError (app (handleSwitchDb K fails n w)) = None"
  shows "events (app (handleSwitchDb K fails n w)) =
           fst (applyPendingActions (snap_events (baselineOf K (storage w) n))
                  (snap_tags (baselineOf K (storage w) n)) (pendingActions (app w)))"
    and "customTags (app (handleSwitchDb K fails n w)) =
           snd (applyPendingActions (snap_events (baselineOf K (storage w) n))
                  (snap_tags (baselineOf K (storage w) n)) (pendingActions (app w)))"
    and "stepTemplates (app (handleSwitchDb K fails n w)) =
           snap_stepTemplates (baselineOf K (storage w) n)"
    and "stepSetTemplates (app (handleSwitchDb K fails n w)) =
           snap_stepSetTemplates (baselineOf K (storage w) n)"
    and "activeDbName (app (handleSwitchDb K fails n w)) = n"
    and "pendingActions (app (handleSwitchDb K fails n w)) = []"
    and "st_events (dbOf (storage (handleSwitchDb K fails n w)) n) =
           fold (put event_id)
             (fst (applyPendingActions (snap_events (baselineOf K (storage w) n))
                    (snap_tags (baselineOf K (storage w) n)) (pendingActions (app w)))) []"
    and "st_tags (dbOf (storage (handleSwitchDb K fails n w)) n) =
           Some (snd (applyPendingActions (snap_events (baselineOf K (storage w) n))
                  (snap_tags (baselineOf K (storage w) n)) (pendingActions (app w))))"
    and "st_stepTemplates (dbOf (storage (handleSwitchDb K fails n w)) n) =
           fold (put template_id) (snap_stepTemplates (baselineOf K (storage w) n)) []"
    and "st_stepSetTemplates (dbOf (storage (handleSwitchDb K fails n w)) n) =
           fold (put set_id) (snap_stepSetTemplates (baselineOf K (storage w) n)) []"
    and "st_isSeeded (dbOf (storage (handleSwitchDb K fails n w)) n)"
proof -
  let ?L = "loadData K fails n (storage w)"
  note h = handleSwitchDb_merge [OF assms(1-5), of fails]
  from h ok obtain t where Inr: "fst ?L = Inr t"
    by (cases "fst ?L") (simp_all add: switchFailed_def)
  from loadData_ok_baseline [OF Inr assms(4)] have t: "t = baselineOf K (storage w) n" .
  let ?P = "applyPendingActions (snap_events t) (snap_tags t) (pendingActions (app w))"
  let ?Sv = "saveDataToDb K fails n (fst ?P) (snd ?P) (snap_stepTemplates t)
               (snap_stepSetTemplates t) (snd ?L)"
  from h ok Inr have sv: "fst ?Sv = Inr ()"
    by (cases "fst ?Sv") (simp_all add: switchFailed_def)
  have w': "handleSwitchDb K fails n w =
              adoptSnapshot n (fst ?P) (snd ?P) (snap_stepTemplates t)
                (snap_stepSetTemplates t) Msg_merged (snd ?Sv) w"
    using h Inr sv by simp
  note c = saveDataToDb_ok_content [OF sv assms(4,5), of n]
  have sd: "st_isSeeded (dbOf (snd ?Sv) n)"
    using loadData_ok_seeded [OF Inr assms(4)] by (simp add: saveDataToDb_isSeeded)
  show "events (app (handleSwitchDb K fails n w)) =
           fst (applyPendingActions (snap_events (baselineOf K (storage w) n))
                  (snap_tags (baselineOf K (storage w) n)) (pendingActions (app w)))"
    and "customTags (app (handleSwitchDb K fails n w)) =
           snd (applyPendingActions (snap_events (baselineOf K (storage w) n))
                  (snap_tags (baselineOf K (storage w) n)) (pendingActions (app w)))"
    and "stepTemplates (app (handleSwitchDb K fails n w)) =
           snap_stepTemplates (baselineOf K (storage w) n)"
    and "stepSetTemplates (app (handleSwitchDb K fails n w)) =
           snap_stepSetTemplates (baselineOf K (storage w) n)"
    and "activeDbName (app (handleSwitchDb K fails n w)) = n"
    and "pendingActions (app (handleSwitchDb K fails n w)) = []"
    unfolding w' by (simp_all add: adoptSnapshot_def t)
  show "st_events (dbOf (storage (handleSwitchDb K fails n w)) n) =
           fold (put event_id)
             (fst (applyPendingActions (snap_events (baselineOf K (storage w) n))
                    (snap_tags (baselineOf K (storage w) n)) (pendingActions (app w)))) []"
    and "st_tags (dbOf (storage (handleSwitchDb K fails n w)) n) =
           Some (snd (applyPendingActions (snap_events (baselineOf K (storage w) n))
                  (snap_tags (baselineOf K (storage w) n)) (pendingActions (app w))))"
    and "st_stepTemplates (dbOf (storage (handleSwitchDb K fails n w)) n) =
           fold (put template_id) (snap_stepTemplates (baselineOf K (storage w) n)) []"
    and "st_stepSetTemplates (dbOf (storage (handleSwitchDb K fails n w)) n) =
           fold (put set_id) (snap_stepSetTemplates (baselineOf K (storage w) n)) []"
    unfolding w' using c by (simp_all add: adoptSnapshot_def t)
  show "st_isSeeded (dbOf (storage (handleSwitchDb K fails n w)) n)"
    unfolding w' using sd by (simp add: adoptSnapshot_def)
qed

text \<open>When the engine rejects nothing, loading, saving and the merging switch succeed.\<close>

lemma saveDataToDb_no_failure:
  "fst (saveDataToDb K (\<lambda>op. False) n ev tg tp sets S) = Inr ()"
  by (simp add: saveDataToDb_def promiseAll_ok adapter_defs getStore_result reachable_def)

lemma writes_no_failure [simp]:
  "fst (saveDataInStore (\<lambda>op. False) n st key upd items S) = Inr ()"
  "fst (saveTagsInStore (\<lambda>op. False) n tg S) = Inr ()"
  "fst (saveMetadata (\<lambda>op. False) n b S) = Inr ()"
  by (simp_all add: adapter_defs getStore_result reachable_def)

lemma reads_no_failure [simp]:
  "fst (getAllDataFromStore (\<lambda>op. False) n st field S) = Inr (field (dbOf S n))"
  "fst (getTagsFromStore (\<lambda>op. False) n S) =
     Inr (case st_tags (dbOf S n) of None \<Rightarrow> [] | Some ts \<Rightarrow> ts)"
  "fst (getMetadata (\<lambda>op. False) n S) = Inr (st_isSeeded (dbOf S n))"
  by (simp_all add: adapter_defs getStore_result reachable_def)

lemma seedDatabase_no_failure:
  "fst (seedDatabase (\<lambda>op. False) n ev tg S) \<noteq> Inl e"
proof -
  have "fst (promiseAll
          [saveDataInStore (\<lambda>op. False) n STORE_events event_id st_events_update ev,
           saveTagsInStore (\<lambda>op. False) n tg,
           saveDataInStore (\<lambda>op. False) n STORE_stepTemplates template_id
             st_stepTemplates_update [],
           saveDataInStore (\<lambda>op. False) n STORE_stepSetTemplates set_id
             st_stepSetTemplates_update []] S) = Inr ()"
    by (simp add: promiseAll_ok)
  then show ?thesis
    by (simp add: seedDatabase_def case_prod_unfold)
qed

lemma readDatabase_no_failure:
  "fst (readDatabase (\<lambda>op. False) n S) \<noteq> Inl e"
  by (simp add: readDatabase_def case_prod_unfold)

lemma loadData_no_failure:
  "fst (loadData K (\<lambda>op. False) n S) \<noteq> Inl e"
  by (simp add: loadData_def case_prod_unfold initDB_result reachable_def
      seedDatabase_no_failure readDatabase_no_failure)

lemma switch_no_failure:
  assumes "dbError (app w) \<noteq> None" and "pendingActions (app w) \<noteq> []"
    and "n \<noteq> activeDbName (app w)" and "n \<noteq> DEMO_DB_NAME K"
    and "n \<noteq> TEMP_STORAGE_DB_NAME K"
  shows "dbError (app (handleSwitchDb K (\<lambda>op. False) n w)) = None"
  unfolding handleSwitchDb_merge [OF assms]
  by (simp add: saveDataToDb_no_failure loadData_no_failure adoptSnapshot_def split: sum.splits)

subsection \<open>The autosave\<close>

text \<open>
  The autosave never writes the \<open>isSeeded\<close> mark: a database that the loader has not
  seeded stays without the mark, whatever the autosave writes into its stores.
\<close>

lemma saveData_isSeeded:
  "st_isSeeded (dbOf (storage (saveData K fails w)) m) = st_isSeeded (dbOf (storage w) m)"
  by (simp add: saveData_def Let_def promiseAll_snd adapter_defs getStore_simps)

lemma autosaveEffect_isSeeded:
  "st_isSeeded (dbOf (storage (autosaveEffect K fails w)) m) = st_isSeeded (dbOf (storage w) m)"
  by (simp add: autosaveEffect_def saveData_isSeeded)

text \<open>
  In a degraded session with an empty queue (after a first load that failed, say, and
  an import, which queues nothing) the autosave writes the collections in memory into
  the active database once the engine accepts writes again.
\<close>

lemma autosave_writes_unmarked_database:
  "dbError (app twoEventsWorld) \<noteq> None
   \<and> \<not> st_isSeeded (dbOf (storage twoEventsWorld) ''essenmelia-db-default'')
   \<and> st_events (dbOf (storage (autosaveEffect K0 (\<lambda>op. False) twoEventsWorld))
        ''essenmelia-db-default'') =
       [mkEvent ''event-2'' ''Work'' 1700000000001 None,
        mkEvent ''event-1'' ''Trip'' 1700000000000 (Some [''A''])]
   \<and> \<not> st_isSeeded (dbOf (storage (autosaveEffect K0 (\<lambda>op. False) twoEventsWorld))
        ''essenmelia-db-default'')"
proof -
  have u: "\<not> st_isSeeded (dbOf (storage twoEventsWorld) ''essenmelia-db-default'')"
    by (simp add: twoEventsWorld_def world1_def world0_def dbOf_def emptyDatabase_def)
  have e: "dbError (app twoEventsWorld) \<noteq> None"
    by (simp add: twoEventsWorld_def world1_def world0_def app0_def)
  have s: "st_events (dbOf (storage (autosaveEffect K0 (\<lambda>op. False) twoEventsWorld))
        ''essenmelia-db-default'') =
       [mkEvent ''event-2'' ''Work'' 1700000000001 None,
        mkEvent ''event-1'' ''Trip'' 1700000000000 (Some [''A''])]"
    by (simp add: autosaveEffect_def saveData_def Let_def twoEventsWorld_def world1_def
        world0_def app0_def K0_def isTempStorageMode_def promiseAll_snd adapter_defs
        getStore_simps reachable_def mkEvent_def)
  from u e s show ?thesis by (simp add: autosaveEffect_isSeeded)
qed

section \<open>The sync engine: a flush that succeeds\<close>

lemma imageWrite_events_tags [simp]:
  "st_events (dbOf (snd (imageWrite fails n a S)) m) = st_events (dbOf S m)"
  "st_tags (dbOf (snd (imageWrite fails n a S)) m) = st_tags (dbOf S m)"
  by (induction fails n a rule: imageWrite.induct)
     (simp_all add: saveDataInStoreByKey_def deleteDataFromStoreByKey_def getStore_dbOf)


lemma performSync_storage:
  "storage (performSync K fails w) =
     snd (syncWrites K fails (app w)
       (fst (applyPendingActions (events (app w)) (customTags (app w)) (pendingActions (app w))))
       (snd (applyPendingActions (events (app w)) (customTags (app w)) (pendingActions (app w))))
       (storage w))"
  by (simp add: performSync_def Let_def case_prod_unfold split: sum.splits)





section \<open>Merging the queue into another database\<close>

text \<open>
  C1 (as amended). In the degraded mode with a non-empty queue, a switch to a regular
  database (neither the demo nor the temporary one) other than the active one, which
  either carries the \<open>isSeeded\<close> mark or has never been written (no mark, no events, no
  tags), folds the queue onto the target's original events and tags, saves the result
  to the target and adopts it. The originals are the events and tags stored in the
  target, except for the default database not yet seeded, which the loader first seeds
  with the tutorial event and its tag. When the switch succeeds (no error is recorded),
  the events persisted in the target are those of the fold, each once, the tags
  persisted are the tags of the fold, the target carries the \<open>isSeeded\<close> mark, the
  events and tags in memory are the fold, the target is the active database and the
  queue is empty; any later load of the target that succeeds hands over the fold. The
  events store of the target is keyed: it holds one event per id.
\<close>

theorem switch_merges_queue_into_target:
  assumes degraded: "dbError (app w) \<noteq> None"
    and queued: "pendingActions (app w) \<noteq> []"
    and other: "newDbName \<noteq> activeDbName (app w)"
    and real: "newDbName \<noteq> DEMO_DB_NAME K" "newDbName \<noteq> TEMP_STORAGE_DB_NAME K"
    and keyed: "distinct (map event_id (st_events (dbOf (storage w) newDbName)))"
    and initialised: "st_isSeeded (dbOf (storage w) newDbName) \<or>
                      (st_events (dbOf (storage w) newDbName) = [] \<and>
                       st_tags (dbOf (storage w) newDbName) = None)"
    and succeeded: "dbError (app (handleSwitchDb K fails newDbName w)) = None"
  shows "let target = dbOf (storage w) newDbName;
             unseededDefault = (newDbName = DEFAULT_DB_NAME K \<and> \<not> st_isSeeded target);
             originalEvents = (if unseededDefault then [tutorialEvent K] else st_events target);
             originalTags = (if unseededDefault then [tutorialTag K]
                             else case st_tags target of None \<Rightarrow> [] | Some ts \<Rightarrow> ts);
             merged = applyPendingActions originalEvents originalTags (pendingActions (app w));
             w' = handleSwitchDb K fails newDbName w;
             target' = dbOf (storage w') newDbName
         in mset (st_events target') = mset (fst merged)
          \<and> st_tags target' = Some (snd merged)
          \<and> st_isSeeded target'
          \<and> events (app w') = fst merged
          \<and> customTags (app w') = snd merged
          \<and> activeDbName (app w') = newDbName
          \<and> pendingActions (app w') = []
          \<and> (\<forall>fails' t. fst (loadData K fails' newDbName (storage w')) = Inr t \<longrightarrow>
                mset (snap_events t) = mset (fst merged) \<and> snap_tags t = snd merged)"
proof -
  let ?w' = "handleSwitchDb K fails newDbName w"
  let ?B = "baselineOf K (storage w) newDbName"
  let ?P = "applyPendingActions (snap_events ?B) (snap_tags ?B) (pendingActions (app w))"
  note ok = handleSwitchDb_merge_ok [OF degraded queued other real succeeded]
  note b = baselineOf_events [OF initialised, of K]
  have d: "distinct (map event_id (fst ?P))"
    by (rule applyPendingActions_distinct_ids) (rule baselineOf_distinct [OF keyed])
  have se: "st_events (dbOf (storage ?w') newDbName) = fst ?P"
    using ok(7) by (simp add: fold_put_keyed [OF d])
  have later: "\<forall>fails' t. fst (loadData K fails' newDbName (storage ?w')) = Inr t \<longrightarrow>
                mset (snap_events t) = mset (fst ?P) \<and> snap_tags t = snd ?P"
  proof (intro allI impI)
    fix fails' t
    assume l: "fst (loadData K fails' newDbName (storage ?w')) = Inr t"
    from loadData_ok_baseline [OF l real(1)] baselineOf_seeded [OF ok(11), of K]
    show "mset (snap_events t) = mset (fst ?P) \<and> snap_tags t = snd ?P"
      by (simp add: se ok(8))
  qed
  from se ok(8) ok(11) ok(1) ok(2) ok(5) ok(6) later
  show ?thesis
    unfolding Let_def b [symmetric] by simp
qed

theorem switch_merges_queue_into_target_witness:
  "dbError (app world2) \<noteq> None
   \<and> length (pendingActions (app world2)) = 2
   \<and> ''essenmelia-db-work'' \<noteq> activeDbName (app world2)
   \<and> ''essenmelia-db-work'' \<noteq> DEMO_DB_NAME K0
   \<and> ''essenmelia-db-work'' \<noteq> TEMP_STORAGE_DB_NAME K0
   \<and> distinct (map event_id (st_events (dbOf (storage world2) ''essenmelia-db-work'')))
   \<and> st_isSeeded (dbOf (storage world2) ''essenmelia-db-work'')
   \<and> dbError (app (handleSwitchDb K0 (\<lambda>op. False) ''essenmelia-db-work'' world2)) = None
   \<and> st_events (dbOf (storage world2) ''essenmelia-db-work'') =
       [mkEvent ''event-1'' ''Trip'' 1700000000000 (Some [''A''])]
   \<and> mset (st_events (dbOf (storage (handleSwitchDb K0 (\<lambda>op. False) ''essenmelia-db-work''
        world2)) ''essenmelia-db-work'')) =
       mset [mkEvent ''event-1'' ''Trip to Rome'' 1700000000000 (Some [''A''])]
   \<and> st_tags (dbOf (storage (handleSwitchDb K0 (\<lambda>op. False) ''essenmelia-db-work'' world2))
        ''essenmelia-db-work'') = Some [''A'', ''B'']
   \<and> st_isSeeded (dbOf (storage (handleSwitchDb K0 (\<lambda>op. False) ''essenmelia-db-work'' world2))
        ''essenmelia-db-work'')
   \<and> events (app (handleSwitchDb K0 (\<lambda>op. False) ''essenmelia-db-work'' world2)) =
       [mkEvent ''event-1'' ''Trip to Rome'' 1700000000000 (Some [''A''])]
   \<and> \<not> st_isSeeded (dbOf (storage world2) ''essenmelia-db-new'')
   \<and> st_events (dbOf (storage world2) ''essenmelia-db-new'') = []
   \<and> st_tags (dbOf (storage world2) ''essenmelia-db-new'') = None
   \<and> dbError (app (handleSwitchDb K0 (\<lambda>op. False) ''essenmelia-db-new'' world2)) = None
   \<and> st_events (dbOf (storage (handleSwitchDb K0 (\<lambda>op. False) ''essenmelia-db-new'' world2))
        ''essenmelia-db-new'') = []
   \<and> st_tags (dbOf (storage (handleSwitchDb K0 (\<lambda>op. False) ''essenmelia-db-new'' world2))
        ''essenmelia-db-new'') = Some [''B'']
   \<and> st_isSeeded (dbOf (storage (handleSwitchDb K0 (\<lambda>op. False) ''essenmelia-db-new'' world2))
        ''essenmelia-db-new'')"
proof -
  have a: "dbError (app world2) \<noteq> None" "pendingActions (app world2) \<noteq> []"
    "''essenmelia-db-work'' \<noteq> activeDbName (app world2)"
    "''essenmelia-db-work'' \<noteq> DEMO_DB_NAME K0"
    "''essenmelia-db-work'' \<noteq> TEMP_STORAGE_DB_NAME K0"
    by (simp_all add: world2_def world1_def world0_def app0_def K0_def)
  have l: "length (pendingActions (app world2)) = 2"
    by (simp add: world2_def world1_def world0_def app0_def)
  have d: "dbOf (storage world2) ''essenmelia-db-work'' = workDb"
    by (simp add: world2_def dbOf_def)
  have k: "distinct (map event_id (st_events (dbOf (storage world2) ''essenmelia-db-work'')))"
    by (simp add: d workDb_def)
  have i: "st_isSeeded (dbOf (storage world2) ''essenmelia-db-work'')"
    by (simp add: d workDb_def)
  have e: "st_events workDb = [mkEvent ''event-1'' ''Trip'' 1700000000000 (Some [''A''])]"
    "st_tags workDb = Some [''A'']" "st_isSeeded workDb"
    by (simp_all add: workDb_def)
  have q: "pendingActions (app world2) =
        [UPDATE_EVENT (mkEvent ''event-1'' ''Trip to Rome'' 1700000000000 (Some [''A''])) NoImage,
         ADD_TAG ''B'']"
    by (simp add: world2_def world1_def world0_def app0_def)
  have f: "applyPendingActions [mkEvent ''event-1'' ''Trip'' 1700000000000 (Some [''A''])] [''A'']
        [UPDATE_EVENT (mkEvent ''event-1'' ''Trip to Rome'' 1700000000000 (Some [''A''])) NoImage,
         ADD_TAG ''B'']
      = ([mkEvent ''event-1'' ''Trip to Rome'' 1700000000000 (Some [''A''])], [''A'', ''B''])"
    by (simp add: applyPendingActions_def mkEvent_def)
  note s = switch_no_failure [OF a]
  have a': "''essenmelia-db-new'' \<noteq> activeDbName (app world2)"
    "''essenmelia-db-new'' \<noteq> DEMO_DB_NAME K0"
    "''essenmelia-db-new'' \<noteq> TEMP_STORAGE_DB_NAME K0"
    by (simp_all add: world2_def world1_def world0_def app0_def K0_def)
  have d': "dbOf (storage world2) ''essenmelia-db-new'' = emptyDatabase"
    by (simp add: world2_def dbOf_def)
  have e': "st_events emptyDatabase = []" "st_tags emptyDatabase = None"
    "\<not> st_isSeeded emptyDatabase"
    by (simp_all add: emptyDatabase_def)
  have k': "distinct (map event_id (st_events (dbOf (storage world2) ''essenmelia-db-new'')))"
    by (simp add: d' e')
  have i': "st_events (dbOf (storage world2) ''essenmelia-db-new'') = [] \<and>
            st_tags (dbOf (storage world2) ''essenmelia-db-new'') = None"
    by (simp add: d' e')
  have f': "applyPendingActions [] []
        [UPDATE_EVENT (mkEvent ''event-1'' ''Trip to Rome'' 1700000000000 (Some [''A''])) NoImage,
         ADD_TAG ''B'']
      = ([], [''B''])"
    by (simp add: applyPendingActions_def)
  have nd: "''essenmelia-db-new'' \<noteq> DEFAULT_DB_NAME K0"
    by (simp add: K0_def)
  note s' = switch_no_failure [OF a(1,2) a']
  have first: "mset (st_events (dbOf (storage (handleSwitchDb K0 (\<lambda>op. False)
        ''essenmelia-db-work'' world2)) ''essenmelia-db-work'')) =
       mset [mkEvent ''event-1'' ''Trip to Rome'' 1700000000000 (Some [''A''])]
   \<and> st_tags (dbOf (storage (handleSwitchDb K0 (\<lambda>op. False) ''essenmelia-db-work'' world2))
        ''essenmelia-db-work'') = Some [''A'', ''B'']
   \<and> st_isSeeded (dbOf (storage (handleSwitchDb K0 (\<lambda>op. False) ''essenmelia-db-work'' world2))
        ''essenmelia-db-work'')
   \<and> events (app (handleSwitchDb K0 (\<lambda>op. False) ''essenmelia-db-work'' world2)) =
       [mkEvent ''event-1'' ''Trip to Rome'' 1700000000000 (Some [''A''])]"
    using switch_merges_queue_into_target [OF a k disjI1 [OF i] s]
    by (simp add: Let_def d e q f)
  have second: "st_events (dbOf (storage (handleSwitchDb K0 (\<lambda>op. False) ''essenmelia-db-new''
        world2)) ''essenmelia-db-new'') = []
   \<and> st_tags (dbOf (storage (handleSwitchDb K0 (\<lambda>op. False) ''essenmelia-db-new'' world2))
        ''essenmelia-db-new'') = Some [''B'']
   \<and> st_isSeeded (dbOf (storage (handleSwitchDb K0 (\<lambda>op. False) ''essenmelia-db-new'' world2))
        ''essenmelia-db-new'')"
    using switch_merges_queue_into_target [OF a(1,2) a' k' disjI2 [OF i'] s']
    by (simp add: Let_def d' e' q f' nd)
  have before: "st_events (dbOf (storage world2) ''essenmelia-db-work'') =
       [mkEvent ''event-1'' ''Trip'' 1700000000000 (Some [''A''])]"
    by (simp add: d e)
  have u: "\<not> st_isSeeded (dbOf (storage world2) ''essenmelia-db-new'')"
    by (simp add: d' e')
  from a l k i s before first u i' s' second show ?thesis by blast
qed

text \<open>
  The claim as stated covers every target. A target that holds an event but not the
  \<open>isSeeded\<close> mark is seeded anew by the loader: the merge folds the queue over nothing,
  and the event that the target held is gone. And a switch to the database that is
  already active does nothing at all: nothing is persisted and the queue stays.
\<close>

theorem switch_merge_unmarked_target_counterexample:
  "dbError (app world3) \<noteq> None \<and> pendingActions (app world3) \<noteq> []
   \<and> ''essenmelia-db-work'' \<noteq> activeDbName (app world3)
   \<and> ''essenmelia-db-work'' \<noteq> DEMO_DB_NAME K0
   \<and> ''essenmelia-db-work'' \<noteq> TEMP_STORAGE_DB_NAME K0
   \<and> dbError (app (handleSwitchDb K0 (\<lambda>op. False) ''essenmelia-db-work'' world3)) = None
   \<and> st_events (dbOf (storage world3) ''essenmelia-db-work'') =
       [mkEvent ''event-7'' ''Garden'' 1700000000007 None]
   \<and> fst (applyPendingActions (st_events (dbOf (storage world3) ''essenmelia-db-work'')) []
            (pendingActions (app world3))) =
       [mkEvent ''event-7'' ''Garden'' 1700000000007 None]
   \<and> st_events (dbOf (storage (handleSwitchDb K0 (\<lambda>op. False) ''essenmelia-db-work'' world3))
        ''essenmelia-db-work'') = []
   \<and> mset (st_events (dbOf (storage (handleSwitchDb K0 (\<lambda>op. False) ''essenmelia-db-work''
        world3)) ''essenmelia-db-work'')) \<noteq>
       mset (fst (applyPendingActions (st_events (dbOf (storage world3) ''essenmelia-db-work'')) []
              (pendingActions (app world3))))
   \<and> dbError (app world4) \<noteq> None
   \<and> fst (applyPendingActions (st_events (dbOf (storage world4) ''essenmelia-db-default'')) []
            (pendingActions (app world4))) =
       [mkEvent ''event-2'' ''Work'' 1700000000001 None]
   \<and> st_events (dbOf (storage (handleSwitchDb K0 (\<lambda>op. False) ''essenmelia-db-default'' world4))
        ''essenmelia-db-default'') = []
   \<and> pendingActions (app (handleSwitchDb K0 (\<lambda>op. False) ''essenmelia-db-default'' world4)) =
       pendingActions (app world4)"
proof -
  have a: "dbError (app world3) \<noteq> None" "pendingActions (app world3) \<noteq> []"
    "''essenmelia-db-work'' \<noteq> activeDbName (app world3)"
    "''essenmelia-db-work'' \<noteq> DEMO_DB_NAME K0"
    "''essenmelia-db-work'' \<noteq> TEMP_STORAGE_DB_NAME K0"
    by (simp_all add: world3_def world1_def world0_def app0_def K0_def)
  have d: "dbOf (storage world3) ''essenmelia-db-work'' = unmarkedDb"
    by (simp add: world3_def dbOf_def)
  have b: "baselineOf K0 (storage world3) ''essenmelia-db-work'' =
             \<lparr>snap_events = [], snap_tags = [], snap_stepTemplates = [],
              snap_stepSetTemplates = []\<rparr>"
    by (simp add: baselineOf_def d unmarkedDb_def K0_def)
  have q: "pendingActions (app world3) =
        [UPDATE_EVENT (mkEvent ''event-1'' ''Trip to Rome'' 1700000000000 (Some [''A''])) NoImage,
         ADD_TAG ''B'']"
    by (simp add: world3_def world1_def world0_def app0_def)
  note s = switch_no_failure [OF a]
  have after: "st_events (dbOf (storage (handleSwitchDb K0 (\<lambda>op. False) ''essenmelia-db-work''
                 world3)) ''essenmelia-db-work'') = []"
    unfolding handleSwitchDb_merge_ok(7) [OF a s]
    by (simp add: b q applyPendingActions_def)
  have before: "st_events (dbOf (storage world3) ''essenmelia-db-work'') =
       [mkEvent ''event-7'' ''Garden'' 1700000000007 None]"
    by (simp add: d unmarkedDb_def)
  have fold7: "fst (applyPendingActions [mkEvent ''event-7'' ''Garden'' 1700000000007 None] []
            (pendingActions (app world3))) =
       [mkEvent ''event-7'' ''Garden'' 1700000000007 None]"
    by (simp add: q applyPendingActions_def mkEvent_def)
  have w4: "dbError (app world4) \<noteq> None"
    "fst (applyPendingActions (st_events (dbOf (storage world4) ''essenmelia-db-default'')) []
            (pendingActions (app world4))) =
       [mkEvent ''event-2'' ''Work'' 1700000000001 None]"
    by (simp_all add: world4_def world1_def world0_def app0_def dbOf_def emptyDatabase_def
        applyPendingActions_def)
  have same: "handleSwitchDb K0 (\<lambda>op. False) ''essenmelia-db-default'' world4 =
                world4\<lparr>app := (app world4)\<lparr>isDbManagerOpen := False\<rparr>\<rparr>"
    by (simp add: handleSwitchDb_def Let_def world4_def world1_def world0_def app0_def)
  have s4: "st_events (dbOf (storage world4) ''essenmelia-db-default'') = []"
    by (simp add: world4_def world1_def world0_def dbOf_def emptyDatabase_def)
  from a s after fold7 w4 show ?thesis
    by (simp add: before same s4)
qed

section \<open>Templates are carried through\<close>

lemma imageWrite_templates [simp]:
  "st_stepTemplates (dbOf (snd (imageWrite fails n a S)) m) = st_stepTemplates (dbOf S m)"
  "st_stepSetTemplates (dbOf (snd (imageWrite fails n a S)) m) = st_stepSetTemplates (dbOf S m)"
  by (induction fails n a rule: imageWrite.induct) simp_all

lemma syncWrites_templates:
  "st_stepTemplates (dbOf (snd (syncWrites K fails s pe pt S)) m) = st_stepTemplates (dbOf S m)"
  "st_stepSetTemplates (dbOf (snd (syncWrites K fails s pe pt S)) m) =
     st_stepSetTemplates (dbOf S m)"
  unfolding syncWrites_def
  by (auto intro!: promiseAll_frame)

lemma performSync_memory_templates:
  "stepTemplates (app (performSync K fails w)) = stepTemplates (app w)"
  "stepSetTemplates (app (performSync K fails w)) = stepSetTemplates (app w)"
  by (simp_all add: performSync_def Let_def case_prod_unfold split: sum.splits)

lemma merge_storage_templates:
  assumes "dbError (app w) \<noteq> None" and "pendingActions (app w) \<noteq> []"
    and "n \<noteq> activeDbName (app w)" and "n \<noteq> DEMO_DB_NAME K"
    and "n \<noteq> TEMP_STORAGE_DB_NAME K"
    and wf: "templatesKeyed (dbOf (storage w) n)"
    and init: "st_isSeeded (dbOf (storage w) n) \<or>
               (st_stepTemplates (dbOf (storage w) n) = [] \<and>
                st_stepSetTemplates (dbOf (storage w) n) = [])"
  shows "st_stepTemplates (dbOf (storage (handleSwitchDb K fails n w)) m) =
           st_stepTemplates (dbOf (storage w) m)
       \<and> st_stepSetTemplates (dbOf (storage (handleSwitchDb K fails n w)) m) =
           st_stepSetTemplates (dbOf (storage w) m)"
proof -
  let ?L = "loadData K fails n (storage w)"
  note h = handleSwitchDb_merge [OF assms(1-5), of fails]
  note lf = loadData_templates_frame [OF init, of K fails]
  show ?thesis
  proof (cases "fst ?L")
    case (Inl e)
    with h lf show ?thesis by (simp add: switchFailed_def)
  next
    case (Inr t)
    from loadData_ok_baseline [OF Inr assms(4)] have t: "t = baselineOf K (storage w) n" .
    from wf have k: "distinct (map template_id (st_stepTemplates (dbOf (storage w) n)))"
      "distinct (map set_id (st_stepSetTemplates (dbOf (storage w) n)))"
      by (simp_all add: templatesKeyed_def)
    have tp: "fold (put template_id) (snap_stepTemplates t) [] = st_stepTemplates (dbOf (snd ?L) n)"
      using lf [of n] k by (simp add: t baselineOf_templates [OF init] fold_put_keyed)
    have st: "fold (put set_id) (snap_stepSetTemplates t) [] =
                st_stepSetTemplates (dbOf (snd ?L) n)"
      using lf [of n] k by (simp add: t baselineOf_templates [OF init] fold_put_keyed)
    let ?P = "applyPendingActions (snap_events t) (snap_tags t) (pendingActions (app w))"
    let ?Sv = "saveDataToDb K fails n (fst ?P) (snd ?P) (snap_stepTemplates t)
                 (snap_stepSetTemplates t) (snd ?L)"
    have sv: "st_stepTemplates (dbOf (snd ?Sv) m) = st_stepTemplates (dbOf (storage w) m)"
      "st_stepSetTemplates (dbOf (snd ?Sv) m) = st_stepSetTemplates (dbOf (storage w) m)"
      using saveDataToDb_templates_frame [OF tp] saveDataToDb_sets_frame [OF st] lf
      by simp_all
    show ?thesis
    proof (cases "fst ?Sv")
      case (Inl e)
      with h Inr sv show ?thesis by (simp add: switchFailed_def)
    next
      case (Inr u)
      with h \<open>fst ?L = Inr t\<close> sv show ?thesis by (simp add: adoptSnapshot_def)
    qed
  qed
qed

text \<open>
  C10 (as amended). No pending action touches the templates. A flush (\<open>performSync\<close>)
  leaves the step templates and step-set templates of every database, and those in
  memory, as they are, whatever the queue and whether or not the write fails. A merging
  switch (degraded mode, non-empty queue, regular target other than the active
  database) whose target either carries the \<open>isSeeded\<close> mark or holds no templates
  leaves the persisted templates of every database as they are, whatever the queue and
  whatever its outcome; when it succeeds, the templates in memory are those persisted in
  the target, so that templates edited in memory before the switch are not part of the
  result. The template stores of the target are keyed: one item per id.
\<close>

theorem templates_untouched_by_flush_and_merge:
  "st_stepTemplates (dbOf (storage (performSync K fails v)) m) =
     st_stepTemplates (dbOf (storage v) m)
   \<and> st_stepSetTemplates (dbOf (storage (performSync K fails v)) m) =
     st_stepSetTemplates (dbOf (storage v) m)
   \<and> stepTemplates (app (performSync K fails v)) = stepTemplates (app v)
   \<and> stepSetTemplates (app (performSync K fails v)) = stepSetTemplates (app v)
   \<and> (dbError (app w) \<noteq> None \<and> pendingActions (app w) \<noteq> [] \<and>
      newDbName \<noteq> activeDbName (app w) \<and> newDbName \<noteq> DEMO_DB_NAME K \<and>
      newDbName \<noteq> TEMP_STORAGE_DB_NAME K \<and>
      distinct (map template_id (st_stepTemplates (dbOf (storage w) newDbName))) \<and>
      distinct (map set_id (st_stepSetTemplates (dbOf (storage w) newDbName))) \<and>
      (st_isSeeded (dbOf (storage w) newDbName) \<or>
       (st_stepTemplates (dbOf (storage w) newDbName) = [] \<and>
        st_stepSetTemplates (dbOf (storage w) newDbName) = [])) \<longrightarrow>
        st_stepTemplates (dbOf (storage (handleSwitchDb K fails newDbName w)) m) =
          st_stepTemplates (dbOf (storage w) m)
      \<and> st_stepSetTemplates (dbOf (storage (handleSwitchDb K fails newDbName w)) m) =
          st_stepSetTemplates (dbOf (storage w) m)
      \<and> (dbError (app (handleSwitchDb K fails newDbName w)) = None \<longrightarrow>
           stepTemplates (app (handleSwitchDb K fails newDbName w)) =
             st_stepTemplates (dbOf (storage w) newDbName)
         \<and> stepSetTemplates (app (handleSwitchDb K fails newDbName w)) =
             st_stepSetTemplates (dbOf (storage w) newDbName)))"
proof -
  have flush: "st_stepTemplates (dbOf (storage (performSync K fails v)) m) =
     st_stepTemplates (dbOf (storage v) m)
   \<and> st_stepSetTemplates (dbOf (storage (performSync K fails v)) m) =
     st_stepSetTemplates (dbOf (storage v) m)
   \<and> stepTemplates (app (performSync K fails v)) = stepTemplates (app v)
   \<and> stepSetTemplates (app (performSync K fails v)) = stepSetTemplates (app v)"
    by (simp add: performSync_storage syncWrites_templates performSync_memory_templates)
  have merge: "st_stepTemplates (dbOf (storage (handleSwitchDb K fails newDbName w)) m) =
          st_stepTemplates (dbOf (storage w) m)
      \<and> st_stepSetTemplates (dbOf (storage (handleSwitchDb K fails newDbName w)) m) =
          st_stepSetTemplates (dbOf (storage w) m)
      \<and> (dbError (app (handleSwitchDb K fails newDbName w)) = None \<longrightarrow>
           stepTemplates (app (handleSwitchDb K fails newDbName w)) =
             st_stepTemplates (dbOf (storage w) newDbName)
         \<and> stepSetTemplates (app (handleSwitchDb K fails newDbName w)) =
             st_stepSetTemplates (dbOf (storage w) newDbName))"
    if h: "dbError (app w) \<noteq> None" "pendingActions (app w) \<noteq> []"
      "newDbName \<noteq> activeDbName (app w)" "newDbName \<noteq> DEMO_DB_NAME K"
      "newDbName \<noteq> TEMP_STORAGE_DB_NAME K"
      and k: "distinct (map template_id (st_stepTemplates (dbOf (storage w) newDbName)))"
        "distinct (map set_id (st_stepSetTemplates (dbOf (storage w) newDbName)))"
      and init: "st_isSeeded (dbOf (storage w) newDbName) \<or>
         (st_stepTemplates (dbOf (storage w) newDbName) = [] \<and>
          st_stepSetTemplates (dbOf (storage w) newDbName) = [])"
  proof -
    from k have wf: "templatesKeyed (dbOf (storage w) newDbName)"
      by (simp add: templatesKeyed_def)
    note st = merge_storage_templates [OF h wf init, of fails m]
    have mem: "stepTemplates (app (handleSwitchDb K fails newDbName w)) =
             st_stepTemplates (dbOf (storage w) newDbName)
         \<and> stepSetTemplates (app (handleSwitchDb K fails newDbName w)) =
             st_stepSetTemplates (dbOf (storage w) newDbName)"
      if ok: "dbError (app (handleSwitchDb K fails newDbName w)) = None"
      using handleSwitchDb_merge_ok(3,4) [OF h ok] baselineOf_templates [OF init, of K]
      by simp
    from st mem show ?thesis by blast
  qed
  from flush merge show ?thesis by blast
qed

theorem templates_untouched_by_flush_and_merge_witness:
  "dbError (app world2) \<noteq> None \<and> pendingActions (app world2) \<noteq> []
   \<and> ''essenmelia-db-work'' \<noteq> activeDbName (app world2)
   \<and> ''essenmelia-db-work'' \<noteq> DEMO_DB_NAME K0
   \<and> ''essenmelia-db-work'' \<noteq> TEMP_STORAGE_DB_NAME K0
   \<and> templatesKeyed (dbOf (storage world2) ''essenmelia-db-work'')
   \<and> st_isSeeded (dbOf (storage world2) ''essenmelia-db-work'')
   \<and> dbError (app (handleSwitchDb K0 (\<lambda>op. False) ''essenmelia-db-work'' world2)) = None
   \<and> stepTemplates (app world2) =
       [\<lparr>template_id = ''template-9'', template_description = ''Draft''\<rparr>]
   \<and> stepTemplates (app (handleSwitchDb K0 (\<lambda>op. False) ''essenmelia-db-work'' world2)) =
       [\<lparr>template_id = ''template-1'', template_description = ''Plan''\<rparr>]
   \<and> st_stepTemplates (dbOf (storage (handleSwitchDb K0 (\<lambda>op. False) ''essenmelia-db-work''
        world2)) ''essenmelia-db-work'') =
       [\<lparr>template_id = ''template-1'', template_description = ''Plan''\<rparr>]"
proof -
  have a: "dbError (app world2) \<noteq> None" "pendingActions (app world2) \<noteq> []"
    "''essenmelia-db-work'' \<noteq> activeDbName (app world2)"
    "''essenmelia-db-work'' \<noteq> DEMO_DB_NAME K0"
    "''essenmelia-db-work'' \<noteq> TEMP_STORAGE_DB_NAME K0"
    by (simp_all add: world2_def world1_def world0_def app0_def K0_def)
  have d: "dbOf (storage world2) ''essenmelia-db-work'' = workDb"
    by (simp add: world2_def dbOf_def)
  have k: "templatesKeyed (dbOf (storage world2) ''essenmelia-db-work'')"
    "st_isSeeded (dbOf (storage world2) ''essenmelia-db-work'')"
    by (simp_all add: d workDb_def templatesKeyed_def)
  have m: "stepTemplates (app world2) =
       [\<lparr>template_id = ''template-9'', template_description = ''Draft''\<rparr>]"
    by (simp add: world2_def)
  have t: "st_stepTemplates workDb =
       [\<lparr>template_id = ''template-1'', template_description = ''Plan''\<rparr>]"
    "st_stepSetTemplates workDb = []" "st_isSeeded workDb"
    by (simp_all add: workDb_def)
  note s = switch_no_failure [OF a]
  from templates_untouched_by_flush_and_merge [of K0 "\<lambda>op. False" world2
      "''essenmelia-db-work''" world2 "''essenmelia-db-work''"] a k s m
  show ?thesis by (simp add: d t)
qed

text \<open>
  The claim as stated covers every base snapshot. A target that holds a template but
  not the \<open>isSeeded\<close> mark is seeded anew by the loader, with no templates: after the
  merge the template that the target held is gone, from the store and from memory.
\<close>

theorem templates_lost_unmarked_target_counterexample:
  "dbError (app world3) \<noteq> None \<and> pendingActions (app world3) \<noteq> []
   \<and> ''essenmelia-db-work'' \<noteq> activeDbName (app world3)
   \<and> ''essenmelia-db-work'' \<noteq> DEMO_DB_NAME K0
   \<and> ''essenmelia-db-work'' \<noteq> TEMP_STORAGE_DB_NAME K0
   \<and> dbError (app (handleSwitchDb K0 (\<lambda>op. False) ''essenmelia-db-work'' world3)) = None
   \<and> st_stepTemplates (dbOf (storage world3) ''essenmelia-db-work'') =
       [\<lparr>template_id = ''template-1'', template_description = ''Plan''\<rparr>]
   \<and> st_stepTemplates (dbOf (storage (handleSwitchDb K0 (\<lambda>op. False) ''essenmelia-db-work''
        world3)) ''essenmelia-db-work'') = []
   \<and> stepTemplates (app (handleSwitchDb K0 (\<lambda>op. False) ''essenmelia-db-work'' world3)) = []
   \<and> st_stepTemplates (dbOf (storage (handleSwitchDb K0 (\<lambda>op. False) ''essenmelia-db-work''
        world3)) ''essenmelia-db-work'') \<noteq>
       st_stepTemplates (dbOf (storage world3) ''essenmelia-db-work'')"
proof -
  have a: "dbError (app world3) \<noteq> None" "pendingActions (app world3) \<noteq> []"
    "''essenmelia-db-work'' \<noteq> activeDbName (app world3)"
    "''essenmelia-db-work'' \<noteq> DEMO_DB_NAME K0"
    "''essenmelia-db-work'' \<noteq> TEMP_STORAGE_DB_NAME K0"
    by (simp_all add: world3_def world1_def world0_def app0_def K0_def)
  have d: "dbOf (storage world3) ''essenmelia-db-work'' = unmarkedDb"
    by (simp add: world3_def dbOf_def)
  have b: "baselineOf K0 (storage world3) ''essenmelia-db-work'' =
             \<lparr>snap_events = [], snap_tags = [], snap_stepTemplates = [],
              snap_stepSetTemplates = []\<rparr>"
    by (simp add: baselineOf_def d unmarkedDb_def K0_def)
  note s = switch_no_failure [OF a]
  have before: "st_stepTemplates (dbOf (storage world3) ''essenmelia-db-work'') =
       [\<lparr>template_id = ''template-1'', template_description = ''Plan''\<rparr>]"
    by (simp add: d unmarkedDb_def)
  from a s before show ?thesis
    by (simp add: handleSwitchDb_merge_ok(3,9) [OF a s] b)
qed


section \<open>Import and export\<close>

subsection \<open>Decimal numerals\<close>











subsection \<open>Regeneration of identities\<close>

lemma regenSteps_length: "length (fst (regenSteps now rnd k ss)) = length ss"
  by (induction ss arbitrary: k) (simp_all add: case_prod_unfold)


























lemma uniqueInOrder_distinct: "distinct (uniqueInOrder xs)"
  by (simp add: uniqueInOrder_def)

subsection \<open>The import\<close>








lemma insertDataInStore_no_failure [simp]:
  "fst (insertDataInStore (\<lambda>op. False) n st key upd items S) = Inr ()"
  by (simp add: insertDataInStore_def getStore_result reachable_def)






end
